theory Spec2Isabelle
  imports Complex_Main "HOL-Library.Log_Nat"
begin

unbundle bit_operations_syntax

section \<open>Parsed JSON documents and the Python operations used on them\<close>

text \<open>
  \<open>json.load\<close> yields \<open>None\<close>, \<open>bool\<close>, \<open>int\<close>, \<open>float\<close>, \<open>str\<close>, \<open>list\<close> and \<open>dict\<close>
  with string keys. A dict is an association list in key order, each key once; \<open>map_of\<close>
  reads it.
  A number literal without fraction and exponent part is an unbounded \<open>int\<close>; any other
  is a \<open>float\<close>, held here by the rational value of the double. Strings are ASCII
  character lists.
\<close>

datatype json =
    JNull
  | JBool bool
  | JInt int
  | JFloat rat
  | JStr string
  | JList "json list"
  | JDict "(string \<times> json) list"

text \<open>The exceptions the code can raise, by class; KeyError carries the missing key.\<close>

datatype error =
    KeyError json
  | IndexError
  | TypeError
  | AttributeError
  | OSError string
  | JSONDecodeError string

text \<open>Sequencing of computations that may raise: the first raise wins.\<close>

definition ebind :: "error + 'a \<Rightarrow> ('a \<Rightarrow> error + 'b) \<Rightarrow> error + 'b" where
  "ebind m f = (case m of Inl e \<Rightarrow> Inl e | Inr x \<Rightarrow> f x)"

fun starts_with :: "string \<Rightarrow> string \<Rightarrow> bool" where
  "starts_with [] s = True"
| "starts_with (a # as) [] = False"
| "starts_with (a # as) (b # bs) = (a = b \<and> starts_with as bs)"

fun substring :: "string \<Rightarrow> string \<Rightarrow> bool" where
  "substring k [] = (k = [])"
| "substring k (c # cs) = (starts_with k (c # cs) \<or> substring k cs)"

text \<open>\<open>isinstance(x, dict)\<close> and \<open>isinstance(x, list)\<close>.\<close>

fun is_dict :: "json \<Rightarrow> bool" where
  "is_dict (JDict kvs) = True"
| "is_dict v = False"

fun is_list :: "json \<Rightarrow> bool" where
  "is_list (JList xs) = True"
| "is_list v = False"

text \<open>\<open>bool(x)\<close>: None, False, zero and the empty str, list and dict are falsy.\<close>

fun truthy :: "json \<Rightarrow> bool" where
  "truthy JNull = False"
| "truthy (JBool b) = b"
| "truthy (JInt i) = (i \<noteq> 0)"
| "truthy (JFloat r) = (r \<noteq> 0)"
| "truthy (JStr s) = (s \<noteq> [])"
| "truthy (JList xs) = (xs \<noteq> [])"
| "truthy (JDict kvs) = (kvs \<noteq> [])"

text \<open>
  \<open>key in x\<close> for a string key: key membership on a dict, element membership on a list,
  substring test on a str, TypeError on None, bool and numbers.
\<close>

fun contains :: "string \<Rightarrow> json \<Rightarrow> error + bool" where
  "contains k (JDict kvs) = Inr (map_of kvs k \<noteq> None)"
| "contains k (JList xs) = Inr (JStr k \<in> set xs)"
| "contains k (JStr s) = Inr (substring k s)"
| "contains k v = Inl TypeError"

text \<open>\<open>x[key]\<close> for a string key: KeyError on a dict without it, TypeError elsewhere.\<close>

fun getitem :: "json \<Rightarrow> string \<Rightarrow> error + json" where
  "getitem (JDict kvs) k = (case map_of kvs k of None \<Rightarrow> Inl (KeyError (JStr k)) | Some v \<Rightarrow> Inr v)"
| "getitem v k = Inl TypeError"

text \<open>
  \<open>x[i]\<close> for an index \<open>i \<ge> 0\<close>: IndexError past the end of a list or str, KeyError on
  a dict (its keys are strings), TypeError elsewhere.
\<close>

fun getindex :: "json \<Rightarrow> nat \<Rightarrow> error + json" where
  "getindex (JList xs) i = (if i < length xs then Inr (xs ! i) else Inl IndexError)"
| "getindex (JStr s) i = (if i < length s then Inr (JStr [s ! i]) else Inl IndexError)"
| "getindex (JDict kvs) i = Inl (KeyError (JInt (int i)))"
| "getindex v i = Inl TypeError"

text \<open>\<open>len(x)\<close>.\<close>

fun py_len :: "json \<Rightarrow> error + nat" where
  "py_len (JList xs) = Inr (length xs)"
| "py_len (JStr s) = Inr (length s)"
| "py_len (JDict kvs) = Inr (length kvs)"
| "py_len v = Inl TypeError"

text \<open>\<open>for item in x\<close>: the elements of a list, the characters of a str, the keys of a dict.\<close>

fun iterate :: "json \<Rightarrow> error + json list" where
  "iterate (JList xs) = Inr xs"
| "iterate (JStr s) = Inr (map (\<lambda>c. JStr [c]) s)"
| "iterate (JDict kvs) = Inr (map (\<lambda>kv. JStr (fst kv)) kvs)"
| "iterate v = Inl TypeError"

text \<open>\<open>s.upper()\<close> on ASCII; a value that is not a str has no such method.\<close>

definition upper_char :: "char \<Rightarrow> char" where
  "upper_char c =
     (case map_of (zip ''abcdefghijklmnopqrstuvwxyz'' ''ABCDEFGHIJKLMNOPQRSTUVWXYZ'') c of
        Some u \<Rightarrow> u
      | None \<Rightarrow> c)"

fun upper :: "json \<Rightarrow> error + string" where
  "upper (JStr s) = Inr (map upper_char s)"
| "upper v = Inl AttributeError"

section \<open>Python numbers\<close>

text \<open>
  A \<open>float\<close> is an IEEE 754 double and every operation on floats rounds its exact result
  to the nearest double, a tie to the one with the even significand. \<open>fl\<close> is that rounding
  on the rationals, for a significand of 53 bits: \<open>exponent x\<close> is the integer \<open>e\<close> with
  \<open>2\<^sup>e \<le> |x| < 2\<^sup>e\<^sup>+\<^sup>1\<close>, and \<open>x\<close> is rounded to a multiple of \<open>2\<^sup>e\<^sup>-\<^sup>5\<^sup>2\<close>. The range of
  the exponent is not bounded here: overflow (to infinity, or the OverflowError of a
  conversion from \<open>int\<close>), the coarser rounding of subnormal numbers, infinities, NaN and
  the sign of zero are outside this model.
\<close>

definition round_even :: "rat \<Rightarrow> int" where
  "round_even y =
     (let f = \<lfloor>y\<rfloor>; d = y - of_int f
      in if d < 1 / 2 then f else if 1 / 2 < d then f + 1 else if even f then f else f + 1)"

definition exponent :: "rat \<Rightarrow> int" where
  "exponent x =
     (if 1 \<le> \<bar>x\<bar> then bitlen \<lfloor>\<bar>x\<bar>\<rfloor> - 1 else - bitlen (\<lceil>1 / \<bar>x\<bar>\<rceil> - 1))"

definition fl :: "rat \<Rightarrow> rat" where
  "fl x =
     (if x = 0 then 0
      else of_int (round_even (x / 2 powi (exponent x - 52))) * 2 powi (exponent x - 52))"

text \<open>
  A Python number is an \<open>int\<close> or a \<open>float\<close>. Arithmetic on two ints is exact; as soon as
  a float takes part, an int operand is converted to the nearest double and the result is
  rounded. \<open>area / 2\<close> is true division: the correctly rounded quotient, also for an int.
\<close>

datatype pynum = PInt int | PFloat rat

fun as_float :: "pynum \<Rightarrow> rat" where
  "as_float (PInt i) = fl (of_int i)"
| "as_float (PFloat r) = r"

fun py_mul :: "pynum \<Rightarrow> pynum \<Rightarrow> pynum" where
  "py_mul (PInt a) (PInt b) = PInt (a * b)"
| "py_mul a b = PFloat (fl (as_float a * as_float b))"

fun py_add :: "pynum \<Rightarrow> pynum \<Rightarrow> pynum" where
  "py_add (PInt a) (PInt b) = PInt (a + b)"
| "py_add a b = PFloat (fl (as_float a + as_float b))"

fun py_sub :: "pynum \<Rightarrow> pynum \<Rightarrow> pynum" where
  "py_sub (PInt a) (PInt b) = PInt (a - b)"
| "py_sub a b = PFloat (fl (as_float a - as_float b))"

fun py_half :: "pynum \<Rightarrow> rat" where
  "py_half (PInt a) = fl (of_int a / 2)"
| "py_half (PFloat r) = fl (r / 2)"

text \<open>
  \<open>json.load\<close> on a number literal with a fraction or exponent part: the double nearest
  to the decimal value \<open>d\<close> of the text.
\<close>

definition float_literal :: "rat \<Rightarrow> json" where
  "float_literal d = JFloat (fl d)"

section \<open>Ring orientation\<close>

text \<open>\<open>ring[i][k]\<close>.\<close>

definition coord :: "json \<Rightarrow> nat \<Rightarrow> nat \<Rightarrow> error + json" where
  "coord ring i k = ebind (getindex ring i) (\<lambda>point. getindex point k)"

text \<open>A value as an operand of arithmetic: \<open>bool\<close> is a subclass of \<open>int\<close>.\<close>

fun number :: "json \<Rightarrow> pynum option" where
  "number (JInt i) = Some (PInt i)"
| "number (JFloat r) = Some (PFloat r)"
| "number (JBool b) = Some (PInt (if b then 1 else 0))"
| "number v = None"

text \<open>
  The product \<open>a * b\<close> as it enters \<open>area += a * b\<close> or \<open>area -= a * b\<close>. Two numbers
  multiply. Otherwise either the product raises TypeError, or it is a str or list repeated
  an integer number of times, which the addition to the number \<open>area\<close> rejects with
  TypeError.
\<close>

definition product :: "json \<Rightarrow> json \<Rightarrow> error + pynum" where
  "product a b =
     (case number a of
        None \<Rightarrow> Inl TypeError
      | Some x \<Rightarrow> (case number b of None \<Rightarrow> Inl TypeError | Some y \<Rightarrow> Inr (py_mul x y)))"

text \<open>One pass of the loop body of \<open>calculate_area\<close>, with \<open>j = i + 1\<close>.\<close>

definition area_step :: "json \<Rightarrow> pynum \<Rightarrow> nat \<Rightarrow> error + pynum" where
  "area_step ring area i =
     ebind (coord ring i 0) (\<lambda>xi.
     ebind (coord ring (i + 1) 1) (\<lambda>yj.
     ebind (product xi yj) (\<lambda>a.
     ebind (coord ring (i + 1) 0) (\<lambda>xj.
     ebind (coord ring i 1) (\<lambda>yi.
     ebind (product xj yi) (\<lambda>b.
     Inr (py_sub (py_add area a) b)))))))"

fun area_loop :: "json \<Rightarrow> pynum \<Rightarrow> nat list \<Rightarrow> error + pynum" where
  "area_loop ring area [] = Inr area"
| "area_loop ring area (i # is) =
     ebind (area_step ring area i) (\<lambda>area'. area_loop ring area' is)"

text \<open>
  \<open>range(len(ring) - 1)\<close> is empty for an empty ring, as \<open>[0..<0 - 1]\<close> is. The area
  starts as the \<open>int\<close> 0; what is returned is a \<open>float\<close>, given by its value.
\<close>

definition calculate_area :: "json \<Rightarrow> error + rat" where
  "calculate_area ring =
     ebind (py_len ring) (\<lambda>n.
     ebind (area_loop ring (PInt 0) [0..<n - 1]) (\<lambda>area.
     Inr (py_half area)))"

text \<open>\<open>ring.reverse()\<close>: only a list has the method. The result is the ring after the call.\<close>

fun reverse_ring :: "json \<Rightarrow> error + json" where
  "reverse_ring (JList points) = Inr (JList (rev points))"
| "reverse_ring v = Inl AttributeError"

text \<open>
  The code reverses rings in place. In a tree built by \<open>json.load\<close> no list is shared, so
  each function returns the value its argument holds afterwards, next to the \<open>changed\<close>
  flag. Lines 42 to 45, for the exterior ring, and the loop body of lines 49 to 52, for a
  hole:
\<close>

definition fix_exterior :: "json \<Rightarrow> error + bool \<times> json" where
  "fix_exterior ring =
     ebind (calculate_area ring) (\<lambda>area.
     if area < 0 then ebind (reverse_ring ring) (\<lambda>ring'. Inr (True, ring'))
     else Inr (False, ring))"

definition fix_interior :: "json \<Rightarrow> error + bool \<times> json" where
  "fix_interior ring =
     ebind (calculate_area ring) (\<lambda>area.
     if area > 0 then ebind (reverse_ring ring) (\<lambda>ring'. Inr (True, ring'))
     else Inr (False, ring))"

fun fix_interiors :: "json list \<Rightarrow> error + bool \<times> json list" where
  "fix_interiors [] = Inr (False, [])"
| "fix_interiors (ring # rings) =
     ebind (fix_interior ring) (\<lambda>(c, ring').
     ebind (fix_interiors rings) (\<lambda>(cs, rings').
     Inr (c \<or> cs, ring' # rings')))"

text \<open>\<open>for ring in coordinates[1:]\<close>: a list or a str can be sliced.\<close>

fun tail_items :: "json \<Rightarrow> error + json list" where
  "tail_items (JList xs) = Inr (drop 1 xs)"
| "tail_items (JStr s) = Inr (map (\<lambda>c. JStr [c]) (drop 1 s))"
| "tail_items v = Inl TypeError"

text \<open>
  A container after its items were worked on in place: a list holds the new items, a str
  or the keys of a dict cannot change.
\<close>

fun with_items :: "json \<Rightarrow> json list \<Rightarrow> json" where
  "with_items (JList xs) ys = JList ys"
| "with_items v ys = v"

definition fix_polygon_orientation :: "json \<Rightarrow> error + bool \<times> json" where
  "fix_polygon_orientation coordinates =
     ebind (getindex coordinates 0) (\<lambda>ring0.
     ebind (fix_exterior ring0) (\<lambda>(c, ring0').
     ebind (tail_items coordinates) (\<lambda>rings.
     ebind (fix_interiors rings) (\<lambda>(cs, rings').
     Inr (c \<or> cs, with_items coordinates (ring0' # rings'))))))"

text \<open>The loop over the polygons of a MultiPolygon.\<close>

fun fix_polygons :: "json list \<Rightarrow> error + bool \<times> json list" where
  "fix_polygons [] = Inr (False, [])"
| "fix_polygons (polygon # polygons) =
     ebind (fix_polygon_orientation polygon) (\<lambda>(c, polygon').
     ebind (fix_polygons polygons) (\<lambda>(cs, polygons').
     Inr (c \<or> cs, polygon' # polygons')))"

text \<open>A dict with the value under a key it has replaced; anything else is left as it is.\<close>

fun with_value :: "json \<Rightarrow> string \<Rightarrow> json \<Rightarrow> json" where
  "with_value (JDict kvs) k v = JDict (map (\<lambda>kv. if fst kv = k then (k, v) else kv) kvs)"
| "with_value d k v = d"

definition fix_geometry_orientation :: "json \<Rightarrow> error + bool \<times> json" where
  "fix_geometry_orientation geometry =
     (if \<not> truthy geometry then Inr (False, geometry)
      else
        ebind (contains ''type'' geometry) (\<lambda>has_type.
        if \<not> has_type then Inr (False, geometry)
        else
          ebind (getitem geometry ''type'') (\<lambda>t.
          if t = JStr ''Polygon'' then
            ebind (getitem geometry ''coordinates'') (\<lambda>coordinates.
            ebind (fix_polygon_orientation coordinates) (\<lambda>(changed, coordinates').
            Inr (changed, with_value geometry ''coordinates'' coordinates')))
          else if t = JStr ''MultiPolygon'' then
            ebind (getitem geometry ''coordinates'') (\<lambda>coordinates.
            ebind (iterate coordinates) (\<lambda>polygons.
            ebind (fix_polygons polygons) (\<lambda>(changed, polygons').
            Inr (changed, with_value geometry ''coordinates'' (with_items coordinates polygons')))))
          else Inr (False, geometry))))"

section \<open>GeometryTypes\<close>

text \<open>
  The Flag enumeration by value: \<open>auto()\<close> numbers the seven kinds 1, 2, 4, ..., 64; NONE
  is 0 and ALL (here \<open>ALL_flag\<close>) is their union. \<open>&\<close> is bitwise and \<open>bool\<close> of a flag is "not zero".
\<close>

type_synonym GeometryTypes = nat

definition NONE :: GeometryTypes where "NONE = 0"
definition POINT :: GeometryTypes where "POINT = 1"
definition LINESTRING :: GeometryTypes where "LINESTRING = 2"
definition POLYGON :: GeometryTypes where "POLYGON = 4"
definition MULTIPOINT :: GeometryTypes where "MULTIPOINT = 8"
definition MULTILINESTRING :: GeometryTypes where "MULTILINESTRING = 16"
definition MULTIPOLYGON :: GeometryTypes where "MULTIPOLYGON = 32"
definition GEOMETRYCOLLECTION :: GeometryTypes where "GEOMETRYCOLLECTION = 64"
definition ALL_flag :: GeometryTypes where
  "ALL_flag = (POINT OR LINESTRING OR POLYGON OR MULTIPOINT OR
          MULTILINESTRING OR MULTIPOLYGON OR GEOMETRYCOLLECTION)"

text \<open>
  \<open>getattr(GeometryTypes, name, GeometryTypes.NONE)\<close>: every member of the class is found
  by its name, NONE and ALL included; any other name gives the default.
\<close>

definition getattr_GeometryTypes :: "string \<Rightarrow> GeometryTypes" where
  "getattr_GeometryTypes name =
     (if name = ''NONE'' then NONE
      else if name = ''POINT'' then POINT
      else if name = ''LINESTRING'' then LINESTRING
      else if name = ''POLYGON'' then POLYGON
      else if name = ''MULTIPOINT'' then MULTIPOINT
      else if name = ''MULTILINESTRING'' then MULTILINESTRING
      else if name = ''MULTIPOLYGON'' then MULTIPOLYGON
      else if name = ''GEOMETRYCOLLECTION'' then GEOMETRYCOLLECTION
      else if name = ''ALL'' then ALL_flag
      else NONE)"

section \<open>GeoJSONParser\<close>

record parser =
  features :: "json list"
  limit :: "int option"
  require_geometry :: bool
  geometry_types :: GeometryTypes

text \<open>\<open>'geometry' in d and d['geometry'] is not None\<close>, for a dict \<open>d\<close>.\<close>

definition has_geometry :: "(string \<times> json) list \<Rightarrow> bool" where
  "has_geometry kvs = (map_of kvs ''geometry'' \<noteq> None \<and> map_of kvs ''geometry'' \<noteq> Some JNull)"

fun is_valid_geojson :: "parser \<Rightarrow> json \<Rightarrow> bool" where
  "is_valid_geojson p (JDict kvs) =
     (case map_of kvs ''type'' of
        None \<Rightarrow> False
      | Some t \<Rightarrow>
          if t = JStr ''Feature'' then
            map_of kvs ''properties'' \<noteq> None \<and> (\<not> require_geometry p \<or> has_geometry kvs)
          else if t = JStr ''FeatureCollection'' then
            (case map_of kvs ''features'' of None \<Rightarrow> False | Some fs \<Rightarrow> is_list fs)
          else True)"
| "is_valid_geojson p v = False"

fun is_valid_feature :: "parser \<Rightarrow> json \<Rightarrow> error + bool" where
  "is_valid_feature p (JDict kvs) =
     (if map_of kvs ''type'' = None then Inr False
      else if map_of kvs ''properties'' = None \<or> (require_geometry p \<and> \<not> has_geometry kvs)
        then Inr False
      else if \<not> has_geometry kvs \<and> \<not> require_geometry p then Inr True
      else
        ebind (getitem (JDict kvs) ''geometry'') (\<lambda>geometry.
        ebind (getitem geometry ''type'') (\<lambda>geometry_type.
        ebind (upper geometry_type) (\<lambda>name.
        Inr (geometry_types p AND getattr_GeometryTypes name \<noteq> 0)))))"
| "is_valid_feature p v = Inr False"

text \<open>
  \<open>self.limit and len(self.features) >= self.limit\<close>: as a condition, the limits None
  and 0 are false.
\<close>

definition limit_reached :: "parser \<Rightarrow> bool" where
  "limit_reached p =
     (case limit p of None \<Rightarrow> False | Some l \<Rightarrow> l \<noteq> 0 \<and> l \<le> int (length (features p)))"

text \<open>\<open>not self.limit or len(self.features) < self.limit\<close>.\<close>

definition below_limit :: "parser \<Rightarrow> bool" where
  "below_limit p =
     (case limit p of None \<Rightarrow> True | Some l \<Rightarrow> l = 0 \<or> int (length (features p)) < l)"

text \<open>\<open>self.limit - len(self.features) if self.limit else None\<close>.\<close>

definition remaining :: "parser \<Rightarrow> int option" where
  "remaining p =
     (case limit p of
        None \<Rightarrow> None
      | Some l \<Rightarrow> if l = 0 then None else Some (l - int (length (features p))))"

text \<open>\<open>xs[:r]\<close>: a negative bound counts from the end.\<close>

definition slice_to :: "'a list \<Rightarrow> int \<Rightarrow> 'a list" where
  "slice_to xs r = (if 0 \<le> r then take (nat r) xs else take (length xs - nat (- r)) xs)"

text \<open>\<open>[f for f in fs if self.is_valid_feature(f)]\<close>: a raise in any test ends the comprehension.\<close>

fun valid_features :: "parser \<Rightarrow> json list \<Rightarrow> error + json list" where
  "valid_features p [] = Inr []"
| "valid_features p (f # fs) =
     ebind (is_valid_feature p f) (\<lambda>ok.
     ebind (valid_features p fs) (\<lambda>rest.
     Inr (if ok then f # rest else rest)))"

text \<open>
  \<open>extract_features\<close> changes \<open>self.features\<close> only in its last statement on each path, so a
  raise leaves the parser as it was: the result is the raise or the updated parser.
\<close>

definition extract_features :: "parser \<Rightarrow> json \<Rightarrow> error + parser" where
  "extract_features p data =
     (if limit_reached p then Inr p
      else
        ebind (contains ''property_geojson'' data) (\<lambda>found.
        if \<not> found then Inr p
        else
          ebind (getitem data ''property_geojson'') (\<lambda>geojson_data.
          if \<not> is_valid_geojson p geojson_data then Inr p
          else
            ebind (getitem geojson_data ''type'') (\<lambda>t.
            if t = JStr ''Feature'' then
              ebind (is_valid_feature p geojson_data) (\<lambda>ok.
              if ok \<and> below_limit p
              then Inr (p\<lparr>features := features p @ [geojson_data]\<rparr>)
              else Inr p)
            else if t = JStr ''FeatureCollection'' then
              ebind (getitem geojson_data ''features'') (\<lambda>fs.
              ebind (iterate fs) (\<lambda>items.
              ebind (valid_features p items) (\<lambda>valid.
              case remaining p of
                Some r \<Rightarrow> Inr (p\<lparr>features := features p @ slice_to valid r\<rparr>)
              | None \<Rightarrow> Inr (p\<lparr>features := features p @ valid\<rparr>))))
            else Inr p))))"

text \<open>
  The loop of \<open>parse_file\<close> over the items of \<open>json_data['data']\<close>. A raise leaves the loop
  and reaches the \<open>except\<close> clause with the features gathered so far.
\<close>

fun parse_items :: "parser \<Rightarrow> json list \<Rightarrow> parser \<times> error option" where
  "parse_items p [] = (p, None)"
| "parse_items p (item # rest) =
     (if limit_reached p then (p, None)
      else case extract_features p item of
             Inl e \<Rightarrow> (p, Some e)
           | Inr p' \<Rightarrow> parse_items p' rest)"

text \<open>The body of the \<open>try\<close> block after \<open>json.load\<close>.\<close>

definition parse_document :: "parser \<Rightarrow> json \<Rightarrow> parser \<times> error option" where
  "parse_document p json_data =
     (if is_dict json_data \<and> contains ''data'' json_data = Inr True then
        (case ebind (getitem json_data ''data'') iterate of
           Inl e \<Rightarrow> (p, Some e)
         | Inr items \<Rightarrow> parse_items p items)
      else
        (case extract_features p json_data of
           Inl e \<Rightarrow> (p, Some e)
         | Inr p' \<Rightarrow> (p', None)))"

text \<open>
  The input boundary: \<open>open\<close> and \<open>json.load\<close> either raise, with a cause, or yield the
  parsed document. What is printed is kept as a list of messages.
\<close>

datatype input = Unreadable string | Invalid_JSON string | Document json

datatype message =
    Error_parsing_file error
  | Error_saving_file error
  | Successfully_extracted nat
  | Fixed_orientation nat

fun parse_file :: "parser \<Rightarrow> input \<Rightarrow> parser \<times> message list" where
  "parse_file p (Unreadable cause) = (p, [Error_parsing_file (OSError cause)])"
| "parse_file p (Invalid_JSON cause) = (p, [Error_parsing_file (JSONDecodeError cause)])"
| "parse_file p (Document json_data) =
     (case parse_document p json_data of
        (p', None) \<Rightarrow> (p', [])
      | (p', Some e) \<Rightarrow> (p', [Error_parsing_file e]))"

section \<open>Saving\<close>

text \<open>
  The body of the loops at lines 163 to 166 and 240 to 243, for one feature: the flag says
  whether the feature counts as fixed, the value is the feature afterwards.
\<close>

definition fix_feature :: "json \<Rightarrow> error + bool \<times> json" where
  "fix_feature feature =
     ebind (contains ''geometry'' feature) (\<lambda>has.
     if \<not> has then Inr (False, feature)
     else
       ebind (getitem feature ''geometry'') (\<lambda>geometry.
       if \<not> truthy geometry then Inr (False, feature)
       else
         ebind (fix_geometry_orientation geometry) (\<lambda>(changed, geometry').
         Inr (changed, with_value feature ''geometry'' geometry'))))"

fun fix_features :: "json list \<Rightarrow> error + nat \<times> json list" where
  "fix_features [] = Inr (0, [])"
| "fix_features (feature # rest) =
     ebind (fix_feature feature) (\<lambda>(changed, feature').
     ebind (fix_features rest) (\<lambda>(fixed_count, rest').
     Inr (if changed then fixed_count + 1 else fixed_count, feature' # rest')))"

text \<open>
  \<open>save_geojson\<close>: the messages printed and the document handed to \<open>json.dump\<close>, if the
  method gets that far. Creating the directory and writing the file are taken to succeed.
\<close>

definition save_geojson :: "parser \<Rightarrow> message list \<times> json option" where
  "save_geojson p =
     (case fix_features (features p) of
        Inl e \<Rightarrow> ([Error_saving_file e], None)
      | Inr (fixed_count, fs) \<Rightarrow>
          (Successfully_extracted (length fs) #
             (if fixed_count > 0 then [Fixed_orientation fixed_count] else []),
           Some (JDict [(''type'', JStr ''FeatureCollection''), (''features'', JList fs)])))"

text \<open>
  \<open>main\<close> from the construction of the parser on (lines 231 to 252), for the parsed
  command line: what is printed, the document written, and the exception that ends the
  process if the orientation pass of \<open>main\<close> itself raises. The name of the output file
  is not modelled.
\<close>

record outcome =
  printed :: "message list"
  written :: "json option"
  uncaught :: "error option"

definition main :: "int option \<Rightarrow> bool \<Rightarrow> GeometryTypes \<Rightarrow> input \<Rightarrow> outcome" where
  "main args_limit allow_empty_geom flag inp =
     (let geojson_parser = \<lparr>features = [], limit = args_limit,
                             require_geometry = \<not> allow_empty_geom, geometry_types = flag\<rparr>;
          (p, msgs) = parse_file geojson_parser inp
      in case fix_features (features p) of
           Inl e \<Rightarrow> \<lparr>printed = msgs, written = None, uncaught = Some e\<rparr>
         | Inr (fixed_count, fs) \<Rightarrow>
             (let (msgs', doc) = save_geojson (p\<lparr>features := fs\<rparr>)
              in \<lparr>printed = msgs @ msgs', written = doc, uncaught = None\<rparr>))"

section \<open>The specification's reading of extraction\<close>

text \<open>
  These definitions follow the words of the specification, not the code; the theorems
  below compare the code with them.

  Section 4.5, \<open>parseTopLevel\<close>: "if document is a mapping containing a data key whose
  value is a sequence, call extractFrom on each element in order, stopping early once the
  limit is reached; otherwise call extractFrom on the document itself". The loop with its
  early stop is \<open>parse_items\<close>; a raise is kept next to the parser, as for the code.
\<close>

definition spec_parseTopLevel :: "parser \<Rightarrow> json \<Rightarrow> parser \<times> error option" where
  "spec_parseTopLevel p document =
     (case document of
        JDict kvs \<Rightarrow>
          (case map_of kvs ''data'' of
             Some (JList items) \<Rightarrow> parse_items p items
           | _ \<Rightarrow>
               (case extract_features p document of
                  Inl e \<Rightarrow> (p, Some e)
                | Inr p' \<Rightarrow> (p', None)))
      | _ \<Rightarrow>
          (case extract_features p document of
             Inl e \<Rightarrow> (p, Some e)
           | Inr p' \<Rightarrow> (p', None)))"

text \<open>The documents on which the code and that reading part: a mapping whose \<open>data\<close> is no list.\<close>

definition has_non_sequence_data :: "json \<Rightarrow> bool" where
  "has_non_sequence_data document =
     (case document of
        JDict kvs \<Rightarrow> (case map_of kvs ''data'' of Some v \<Rightarrow> \<not> is_list v | None \<Rightarrow> False)
      | _ \<Rightarrow> False)"

text \<open>
  The records of a document (section 6: the elements of \<open>data\<close>, or the document itself)
  and the features one record holds that are structurally valid and match the configured
  types (section 4.5): the \<open>property_geojson\<close> fragment if it is a valid envelope, as the
  one feature it is or as the features of the collection that pass \<open>is_valid_feature\<close>, in
  their order.
\<close>

definition spec_records :: "json \<Rightarrow> json list" where
  "spec_records document =
     (case document of
        JDict kvs \<Rightarrow> (case map_of kvs ''data'' of Some (JList items) \<Rightarrow> items | _ \<Rightarrow> [document])
      | _ \<Rightarrow> [document])"

definition spec_accepted :: "parser \<Rightarrow> json \<Rightarrow> json list" where
  "spec_accepted p node =
     (case node of
        JDict kvs \<Rightarrow>
          (case map_of kvs ''property_geojson'' of
             None \<Rightarrow> []
           | Some fragment \<Rightarrow>
               if \<not> is_valid_geojson p fragment then []
               else
                 (case fragment of
                    JDict fkvs \<Rightarrow>
                      if map_of fkvs ''type'' = Some (JStr ''Feature'') then
                        (if is_valid_feature p fragment = Inr True then [fragment] else [])
                      else if map_of fkvs ''type'' = Some (JStr ''FeatureCollection'') then
                        (case map_of fkvs ''features'' of
                           Some (JList fs) \<Rightarrow> filter (\<lambda>f. is_valid_feature p f = Inr True) fs
                         | _ \<Rightarrow> [])
                      else []
                  | _ \<Rightarrow> []))
      | _ \<Rightarrow> [])"

definition spec_found :: "parser \<Rightarrow> json \<Rightarrow> json list" where
  "spec_found p document = concat (map (spec_accepted p) (spec_records document))"

text \<open>
  What fits under the limit: the part of a list of accepted features that a parser short
  of its limit appends.
\<close>

definition cap :: "parser \<Rightarrow> json list \<Rightarrow> json list" where
  "cap p xs = (case remaining p of None \<Rightarrow> xs | Some r \<Rightarrow> take (nat r) xs)"

section \<open>Rings with integer coordinates\<close>

text \<open>
  The rings on which the arithmetic of \<open>calculate_area\<close> is exact: a list of points, each
  a list that starts with two ints. \<open>xy\<close> reads the two coordinates of such a point.
\<close>

fun integer :: "json \<Rightarrow> int option" where
  "integer (JInt i) = Some i"
| "integer (JBool b) = Some (if b then 1 else 0)"
| "integer v = None"

fun integer_point :: "json \<Rightarrow> bool" where
  "integer_point (JList (a # b # rest)) = (integer a \<noteq> None \<and> integer b \<noteq> None)"
| "integer_point v = False"

definition num :: "json \<Rightarrow> int" where
  "num v = (case integer v of Some i \<Rightarrow> i | None \<Rightarrow> 0)"

fun xy :: "json \<Rightarrow> int \<times> int" where
  "xy (JList (a # b # rest)) = (num a, num b)"
| "xy v = (0, 0)"

fun wf_ring :: "json \<Rightarrow> bool" where
  "wf_ring (JList points) = list_all integer_point points"
| "wf_ring v = False"

fun wf_polygon :: "json \<Rightarrow> bool" where
  "wf_polygon (JList rings) = (rings \<noteq> [] \<and> list_all wf_ring rings)"
| "wf_polygon v = False"

fun wf_multipolygon :: "json \<Rightarrow> bool" where
  "wf_multipolygon (JList polygons) = list_all wf_polygon polygons"
| "wf_multipolygon v = False"

text \<open>A Polygon or MultiPolygon geometry whose \<open>coordinates\<close> are of that form.\<close>

definition wf_geometry :: "json \<Rightarrow> bool" where
  "wf_geometry geometry =
     (case geometry of
        JDict kvs \<Rightarrow>
          (case map_of kvs ''coordinates'' of
             None \<Rightarrow> False
           | Some c \<Rightarrow>
               (map_of kvs ''type'' = Some (JStr ''Polygon'') \<and> wf_polygon c) \<or>
               (map_of kvs ''type'' = Some (JStr ''MultiPolygon'') \<and> wf_multipolygon c))
      | _ \<Rightarrow> False)"

text \<open>
  Section 4.2 of the specification: "for indices i from 0 to len(ring)-2, accumulate
  x[i]*y[i+1] - x[i+1]*y[i]; divide the total by 2".
\<close>

definition shoelace_sum :: "(int \<times> int) list \<Rightarrow> int" where
  "shoelace_sum ps =
     (\<Sum>i<length ps - 1. fst (ps ! i) * snd (ps ! (i + 1)) - fst (ps ! (i + 1)) * snd (ps ! i))"

fun ring_points :: "json \<Rightarrow> (int \<times> int) list" where
  "ring_points (JList points) = map xy points"
| "ring_points v = []"

definition spec_signed_area :: "json \<Rightarrow> rat" where
  "spec_signed_area ring = of_int (shoelace_sum (ring_points ring)) / 2"

text \<open>A ring with its points in the opposite order.\<close>

fun reversed :: "json \<Rightarrow> json" where
  "reversed (JList points) = JList (rev points)"
| "reversed v = v"

section \<open>Rings with numeric coordinates\<close>

text \<open>
  The rings on which \<open>calculate_area\<close> returns: a list of points, each a list that starts
  with two numbers. \<open>computed_area\<close> is the value it returns.
\<close>

fun numeric_point :: "json \<Rightarrow> bool" where
  "numeric_point (JList (a # b # rest)) = (number a \<noteq> None \<and> number b \<noteq> None)"
| "numeric_point v = False"

fun numeric_ring :: "json \<Rightarrow> bool" where
  "numeric_ring (JList points) = list_all numeric_point points"
| "numeric_ring v = False"

definition computed_area :: "json \<Rightarrow> rat" where
  "computed_area ring = (case calculate_area ring of Inr area \<Rightarrow> area | Inl e \<Rightarrow> 0)"

section \<open>Example values\<close>

text \<open>
  The parser as \<open>__init__\<close> builds it with its default arguments, and the features and
  records of scenarios A, C and E of the specification.
\<close>

definition default_parser :: parser where
  "default_parser =
     \<lparr>features = [], limit = None, require_geometry = True, geometry_types = ALL_flag\<rparr>"

definition point_feature :: json where
  "point_feature =
     JDict [(''type'', JStr ''Feature''), (''properties'', JDict []),
            (''geometry'', JDict [(''type'', JStr ''Point''),
                                  (''coordinates'', JList [JInt 1, JInt 2])])]"

definition linestring_feature :: json where
  "linestring_feature =
     JDict [(''type'', JStr ''Feature''), (''properties'', JDict []),
            (''geometry'', JDict [(''type'', JStr ''LineString''),
                                  (''coordinates'', JList [JList [JInt 0, JInt 0],
                                                           JList [JInt 1, JInt 1]])])]"

text \<open>The clockwise square of scenario B, and the same square counterclockwise.\<close>

definition clockwise_square :: json where
  "clockwise_square =
     JList [JList [JInt 0, JInt 0], JList [JInt 0, JInt 1], JList [JInt 1, JInt 1],
            JList [JInt 1, JInt 0], JList [JInt 0, JInt 0]]"

definition counterclockwise_square :: json where
  "counterclockwise_square =
     JList [JList [JInt 0, JInt 0], JList [JInt 1, JInt 0], JList [JInt 1, JInt 1],
            JList [JInt 0, JInt 1], JList [JInt 0, JInt 0]]"

text \<open>
  A ring of three points on the line \<open>y = x + 0.1\<close>, as \<open>json.load\<close> reads
  \<open>[[0.0, 0.1], [0.2, 0.3], [0.9, 1.0], [0.0, 0.1]]\<close>.
\<close>

definition collinear_ring :: json where
  "collinear_ring =
     JList [JList [float_literal 0, float_literal (1 / 10)],
            JList [float_literal (2 / 10), float_literal (3 / 10)],
            JList [float_literal (9 / 10), float_literal 1],
            JList [float_literal 0, float_literal (1 / 10)]]"

definition polygon_geometry :: "json list \<Rightarrow> json" where
  "polygon_geometry rings = JDict [(''type'', JStr ''Polygon''), (''coordinates'', JList rings)]"

definition record_of :: "json \<Rightarrow> json" where
  "record_of fragment = JDict [(''property_geojson'', fragment)]"

definition collection_of :: "json list \<Rightarrow> json" where
  "collection_of fs = JDict [(''type'', JStr ''FeatureCollection''), (''features'', JList fs)]"

definition data_document :: "json list \<Rightarrow> json" where
  "data_document records = JDict [(''data'', JList records)]"

section \<open>Basic facts\<close>

lemma ebind_simps: "ebind (Inl e) f = Inl e" "ebind (Inr x) f = f x"
  by (simp_all add: ebind_def)

lemma fl_zero [simp]: "fl 0 = 0"
  by (simp add: fl_def)

lemmas GeometryTypes_defs =
  NONE_def POINT_def LINESTRING_def POLYGON_def MULTIPOINT_def MULTILINESTRING_def
  MULTIPOLYGON_def GEOMETRYCOLLECTION_def ALL_flag_def

section \<open>Feature validation\<close>

text \<open>
  A feature with a geometry is accepted only if that geometry is a mapping whose \<open>type\<close>
  is a string, and the flag found under the upper-cased name meets the configured set.
\<close>

lemma accepted_flag_intersects:
  assumes "is_valid_feature p (JDict kvs) = Inr True" and "has_geometry kvs"
  shows "\<exists>g t. map_of kvs ''geometry'' = Some (JDict g) \<and> map_of g ''type'' = Some (JStr t) \<and>
           geometry_types p AND getattr_GeometryTypes (map upper_char t) \<noteq> 0"
proof -
  from assms obtain geometry where g: "map_of kvs ''geometry'' = Some geometry"
    by (auto simp: has_geometry_def)
  from assms g have *: "ebind (getitem geometry ''type'') (\<lambda>geometry_type.
        ebind (upper geometry_type) (\<lambda>name.
        Inr (geometry_types p AND getattr_GeometryTypes name \<noteq> 0))) = Inr True"
    by (auto simp: ebind_simps split: if_splits)
  then obtain gk where gk: "geometry = JDict gk"
    by (cases geometry) (auto simp: ebind_simps)
  with * obtain ty where ty: "map_of gk ''type'' = Some ty"
    by (cases "map_of gk ''type''") (auto simp: ebind_simps)
  with * gk obtain t where t: "ty = JStr t"
    by (cases ty) (auto simp: ebind_simps)
  with * gk ty have "geometry_types p AND getattr_GeometryTypes (map upper_char t) \<noteq> 0"
    by (auto simp: ebind_simps)
  with g gk ty t show ?thesis by auto
qed

text \<open>
  C3. The claim: a geometry type name that is not one of the seven kind names, in any
  letter case, is looked up to the empty flag and the feature is rejected whatever the
  configured set. The code at the name \<open>All\<close>: upper-cased it is \<open>ALL\<close>, which is none of
  the seven kind names but is a member of the enumeration, so \<open>getattr\<close> finds the flag
  127 and a parser configured for points only accepts the feature.
\<close>

theorem all_name_accepted:
  "upper (JStr ''All'') = Inr ''ALL'' \<and>
   ''ALL'' \<notin> {''POINT'', ''LINESTRING'', ''POLYGON'', ''MULTIPOINT'', ''MULTILINESTRING'',
               ''MULTIPOLYGON'', ''GEOMETRYCOLLECTION''} \<and>
   getattr_GeometryTypes ''ALL'' = 127 \<and>
   is_valid_feature
     \<lparr>features = [], limit = None, require_geometry = True, geometry_types = POINT\<rparr>
     (JDict [(''type'', JStr ''Feature''), (''properties'', JDict []),
             (''geometry'', JDict [(''type'', JStr ''All'')])]) = Inr True"
  by (simp add: ebind_simps upper_char_def getattr_GeometryTypes_def GeometryTypes_defs
      has_geometry_def)

text \<open>
  C10. When geometry is not required, a feature with \<open>type\<close> and \<open>properties\<close> whose
  \<open>geometry\<close> is null is accepted, as the same feature without the key is, whatever the
  configured geometry types; as a \<open>Feature\<close> fragment of a record it is appended to the
  accepted features while the limit is not reached.
\<close>

theorem null_geometry_accepted:
  assumes "\<not> require_geometry p"
    and "map_of kvs ''type'' = Some (JStr ''Feature'')"
    and "map_of kvs ''properties'' = Some props"
    and "map_of kvs ''geometry'' = Some JNull"
    and "\<not> limit_reached p"
  shows "is_valid_feature p (JDict kvs) = Inr True \<and>
         is_valid_feature p (JDict (filter (\<lambda>kv. fst kv \<noteq> ''geometry'') kvs)) = Inr True \<and>
         extract_features p (JDict [(''property_geojson'', JDict kvs)]) =
           Inr (p\<lparr>features := features p @ [JDict kvs]\<rparr>)"
proof -
  have v: "is_valid_feature p (JDict kvs) = Inr True"
    using assms by (simp add: has_geometry_def)
  have m: "map_of (filter (\<lambda>kv. fst kv \<noteq> ''geometry'') kvs) k =
        (if k = ''geometry'' then None else map_of kvs k)" for k
    by (induction kvs) auto
  have w: "is_valid_feature p (JDict (filter (\<lambda>kv. fst kv \<noteq> ''geometry'') kvs)) = Inr True"
    using assms by (simp add: has_geometry_def m)
  have b: "below_limit p"
    using assms(5) by (auto simp: below_limit_def limit_reached_def split: option.splits)
  have "extract_features p (JDict [(''property_geojson'', JDict kvs)]) =
           Inr (p\<lparr>features := features p @ [JDict kvs]\<rparr>)"
    using assms v b by (simp add: extract_features_def ebind_simps has_geometry_def)
  with v w show ?thesis by simp
qed

theorem null_geometry_accepted_witness:
  "is_valid_feature
     \<lparr>features = [], limit = None, require_geometry = False, geometry_types = NONE\<rparr>
     (JDict [(''type'', JStr ''Feature''), (''properties'', JDict []), (''geometry'', JNull)]) =
     Inr True \<and>
   extract_features
     \<lparr>features = [], limit = None, require_geometry = False, geometry_types = NONE\<rparr>
     (JDict [(''property_geojson'',
        JDict [(''type'', JStr ''Feature''), (''properties'', JDict []), (''geometry'', JNull)])]) =
     Inr \<lparr>features =
            [JDict [(''type'', JStr ''Feature''), (''properties'', JDict []), (''geometry'', JNull)]],
          limit = None, require_geometry = False, geometry_types = NONE\<rparr>"
  using null_geometry_accepted
    [of "\<lparr>features = [], limit = None, require_geometry = False, geometry_types = NONE\<rparr>"
        "[(''type'', JStr ''Feature''), (''properties'', JDict []), (''geometry'', JNull)]"
        "JDict []"]
  by (simp add: limit_reached_def)

section \<open>Malformed geometries and failing input\<close>

text \<open>
  C8. The claim: a fragment that fails validity, a feature with a malformed geometry
  included, is skipped silently; validation never raises, nothing is printed for it and
  the rest of the input is processed. The code on a feature whose geometry is the empty
  mapping or a number: \<open>geometry['type']\<close> raises KeyError or TypeError inside
  \<open>is_valid_feature\<close>; in \<open>parse_file\<close> the raise ends the loop over the records, a
  message is printed, and the valid Point feature of the next record is never extracted.
\<close>

theorem malformed_geometry_raises:
  "is_valid_feature
     \<lparr>features = [], limit = None, require_geometry = True, geometry_types = ALL_flag\<rparr>
     (JDict [(''type'', JStr ''Feature''), (''properties'', JDict []), (''geometry'', JDict [])]) =
     Inl (KeyError (JStr ''type'')) \<and>
   is_valid_feature
     \<lparr>features = [], limit = None, require_geometry = True, geometry_types = ALL_flag\<rparr>
     (JDict [(''type'', JStr ''Feature''), (''properties'', JDict []), (''geometry'', JInt 5)]) =
     Inl TypeError \<and>
   parse_file
     \<lparr>features = [], limit = None, require_geometry = True, geometry_types = ALL_flag\<rparr>
     (Document (JDict [(''data'', JList
        [JDict [(''property_geojson'',
           JDict [(''type'', JStr ''Feature''), (''properties'', JDict []),
                  (''geometry'', JDict [])])],
         JDict [(''property_geojson'',
           JDict [(''type'', JStr ''Feature''), (''properties'', JDict []),
                  (''geometry'', JDict [(''type'', JStr ''Point''),
                                        (''coordinates'', JList [JInt 1, JInt 2])])])]])])) =
     (\<lparr>features = [], limit = None, require_geometry = True, geometry_types = ALL_flag\<rparr>,
      [Error_parsing_file (KeyError (JStr ''type''))])"
  by (simp add: ebind_simps has_geometry_def parse_document_def extract_features_def
      limit_reached_def)

text \<open>
  C7, as amended. An unreadable file or invalid JSON is caught in \<open>parse_file\<close> and
  reported with its cause, and the parser keeps the features it had: nothing is extracted
  from that input. \<open>main\<close> then goes on to save: it writes a FeatureCollection without
  features and reports 0 extracted features.
\<close>

theorem input_failure_output:
  "parse_file p (Unreadable cause) = (p, [Error_parsing_file (OSError cause)]) \<and>
   parse_file p (Invalid_JSON cause) = (p, [Error_parsing_file (JSONDecodeError cause)]) \<and>
   main args_limit allow_empty_geom flag (Unreadable cause) =
     \<lparr>printed = [Error_parsing_file (OSError cause), Successfully_extracted 0],
      written = Some (JDict [(''type'', JStr ''FeatureCollection''), (''features'', JList [])]),
      uncaught = None\<rparr> \<and>
   main args_limit allow_empty_geom flag (Invalid_JSON cause) =
     \<lparr>printed = [Error_parsing_file (JSONDecodeError cause), Successfully_extracted 0],
      written = Some (JDict [(''type'', JStr ''FeatureCollection''), (''features'', JList [])]),
      uncaught = None\<rparr>"
  by (simp add: main_def save_geojson_def)

text \<open>
  C7 as stated says that no output file is written for a run whose input cannot be read;
  the run on an unreadable file writes one.
\<close>

theorem input_failure_writes_file:
  "written (main None False ALL_flag (Unreadable ''No such file or directory'')) \<noteq> None"
  by (simp add: main_def save_geojson_def)

section \<open>Polygons without rings\<close>

lemma fix_polygons_without_rings: "JList [] \<in> set polygons \<Longrightarrow> isl (fix_polygons polygons)"
proof (induction polygons)
  case Nil
  then show ?case by simp
next
  case (Cons p ps)
  show ?case
  proof (cases "fix_polygon_orientation p")
    case (Inl e)
    then show ?thesis by (simp add: ebind_simps)
  next
    case (Inr r)
    then have "p \<noteq> JList []" by (auto simp: fix_polygon_orientation_def ebind_simps)
    with Cons have "isl (fix_polygons ps)" by simp
    then obtain e where "fix_polygons ps = Inl e" by (cases "fix_polygons ps") simp_all
    with Inr show ?thesis by (cases r) (simp add: ebind_simps)
  qed
qed

text \<open>
  C9. For a geometry of type Polygon the access to ring 0 is unguarded: without a
  \<open>coordinates\<close> key the call raises KeyError and with an empty list of rings it raises
  IndexError; a call on a MultiPolygon one of whose polygons has no rings raises as well.
  Hence a call on a Polygon that returns has found a \<open>coordinates\<close> value other than the
  empty list.
\<close>

theorem polygon_without_rings_raises:
  assumes "map_of a ''type'' = Some (JStr ''Polygon'')" and "map_of a ''coordinates'' = None"
    and "map_of b ''type'' = Some (JStr ''Polygon'')"
    and "map_of b ''coordinates'' = Some (JList [])"
    and "map_of m ''type'' = Some (JStr ''MultiPolygon'')"
    and "map_of m ''coordinates'' = Some (JList polygons)" and "JList [] \<in> set polygons"
    and "map_of g ''type'' = Some (JStr ''Polygon'')"
    and "fix_geometry_orientation (JDict g) = Inr r"
  shows "fix_geometry_orientation (JDict a) = Inl (KeyError (JStr ''coordinates'')) \<and>
         fix_geometry_orientation (JDict b) = Inl IndexError \<and>
         isl (fix_geometry_orientation (JDict m)) \<and>
         (\<exists>c. map_of g ''coordinates'' = Some c \<and> c \<noteq> JList [])"
proof -
  have ne: "kvs \<noteq> []" if "map_of kvs ''type'' = Some t" for kvs t
    using that by auto
  have A: "fix_geometry_orientation (JDict a) = Inl (KeyError (JStr ''coordinates''))"
    using assms(1,2) ne[OF assms(1)] by (simp add: fix_geometry_orientation_def ebind_simps)
  have B: "fix_geometry_orientation (JDict b) = Inl IndexError"
    using assms(3,4) ne[OF assms(3)]
    by (simp add: fix_geometry_orientation_def fix_polygon_orientation_def ebind_simps)
  have M: "isl (fix_geometry_orientation (JDict m))"
  proof -
    from fix_polygons_without_rings[OF assms(7)] obtain e where "fix_polygons polygons = Inl e"
      by (cases "fix_polygons polygons") simp_all
    with assms(5,6) ne[OF assms(5)] show ?thesis
      by (simp add: fix_geometry_orientation_def ebind_simps)
  qed
  have G: "\<exists>c. map_of g ''coordinates'' = Some c \<and> c \<noteq> JList []"
  proof (cases "map_of g ''coordinates''")
    case None
    with assms(8,9) ne[OF assms(8)] show ?thesis
      by (simp add: fix_geometry_orientation_def ebind_simps)
  next
    case (Some c)
    with assms(8,9) ne[OF assms(8)] show ?thesis
      by (auto simp: fix_geometry_orientation_def fix_polygon_orientation_def ebind_simps)
  qed
  from A B M G show ?thesis by simp
qed

theorem polygon_without_rings_raises_witness:
  "fix_geometry_orientation (JDict [(''type'', JStr ''Polygon'')]) =
     Inl (KeyError (JStr ''coordinates'')) \<and>
   fix_geometry_orientation (JDict [(''type'', JStr ''Polygon''), (''coordinates'', JList [])]) =
     Inl IndexError \<and>
   fix_geometry_orientation
     (JDict [(''type'', JStr ''MultiPolygon''),
             (''coordinates'', JList [JList [counterclockwise_square], JList []])]) =
     Inl IndexError \<and>
   isl (fix_geometry_orientation
     (JDict [(''type'', JStr ''Polygon''), (''coordinates'', JList [JList []])])) = False \<and>
   (\<exists>c. map_of [(''type'', JStr ''Polygon''), (''coordinates'', JList [JList []])]
           ''coordinates'' = Some c \<and> c \<noteq> JList [])"
proof -
  have r: "fix_geometry_orientation
      (JDict [(''type'', JStr ''Polygon''), (''coordinates'', JList [JList []])]) =
      Inr (False, JDict [(''type'', JStr ''Polygon''), (''coordinates'', JList [JList []])])"
    by (simp add: fix_geometry_orientation_def fix_polygon_orientation_def fix_exterior_def
        calculate_area_def ebind_simps)
  have m: "fix_geometry_orientation
      (JDict [(''type'', JStr ''MultiPolygon''),
              (''coordinates'', JList [JList [counterclockwise_square], JList []])]) =
      Inl IndexError"
    by (simp add: fix_geometry_orientation_def fix_polygon_orientation_def fix_exterior_def
        calculate_area_def area_step_def coord_def product_def counterclockwise_square_def
        ebind_simps upt_rec)
  from polygon_without_rings_raises
    [of "[(''type'', JStr ''Polygon'')]"
        "[(''type'', JStr ''Polygon''), (''coordinates'', JList [])]"
        "[(''type'', JStr ''MultiPolygon''),
          (''coordinates'', JList [JList [counterclockwise_square], JList []])]"
        "[JList [counterclockwise_square], JList []]"
        "[(''type'', JStr ''Polygon''), (''coordinates'', JList [JList []])]", OF _ _ _ _ _ _ _ _ r]
  show ?thesis by (simp add: r m)
qed

section \<open>Extraction\<close>

text \<open>Validation reads only the configuration of the parser, not the features gathered.\<close>

lemma is_valid_feature_features [simp]:
  "is_valid_feature (p\<lparr>features := fs\<rparr>) f = is_valid_feature p f"
  by (cases f) simp_all

lemma is_valid_geojson_features [simp]:
  "is_valid_geojson (p\<lparr>features := fs\<rparr>) d = is_valid_geojson p d"
  by (cases d) (simp_all cong: option.case_cong)

lemma spec_accepted_features [simp]:
  "spec_accepted (p\<lparr>features := fs\<rparr>) = spec_accepted p"
  by (rule ext) (simp add: spec_accepted_def cong: option.case_cong json.case_cong if_cong)

text \<open>A comprehension that completes has kept the features whose test returned True.\<close>

lemma valid_features_filter:
  "valid_features p items = Inr valid \<Longrightarrow>
   valid = filter (\<lambda>f. is_valid_feature p f = Inr True) items"
proof (induction items arbitrary: valid)
  case Nil
  then show ?case by simp
next
  case (Cons f fs)
  from Cons.prems obtain ok where ok: "is_valid_feature p f = Inr ok"
    by (cases "is_valid_feature p f") (auto simp: ebind_simps)
  with Cons.prems obtain rest where rest: "valid_features p fs = Inr rest"
    by (cases "valid_features p fs") (auto simp: ebind_simps)
  from Cons.IH[OF rest] ok rest Cons.prems show ?case
    by (auto simp: ebind_simps)
qed

text \<open>
  A call of \<open>extract_features\<close> that returns, on a parser short of its limit, has appended
  the accepted features of the record, as far as they fit.
\<close>

lemma extract_features_accepted:
  assumes "\<not> limit_reached p" and "extract_features p item = Inr p'"
  shows "p' = p\<lparr>features := features p @ cap p (spec_accepted p item)\<rparr>"
proof -
  have same: "p = p\<lparr>features := features p @ cap p []\<rparr>"
    by (simp add: cap_def split: option.splits)
  have slice: "slice_to xs r = take (nat r) xs" if "remaining p = Some r" for xs :: "json list" and r
    using that assms(1)
    by (auto simp: remaining_def limit_reached_def slice_to_def split: option.splits if_splits)
  have below: "below_limit p"
    using assms(1) by (auto simp: below_limit_def limit_reached_def split: option.splits)
  from assms obtain found where found: "contains ''property_geojson'' item = Inr found"
    by (cases "contains ''property_geojson'' item") (auto simp: extract_features_def ebind_simps)
  show ?thesis
  proof (cases found)
    case False
    with found assms have "p' = p" by (simp add: extract_features_def ebind_simps)
    moreover from False found have "spec_accepted p item = []"
      by (cases item) (auto simp: spec_accepted_def)
    ultimately show ?thesis using same by simp
  next
    case True
    with found assms obtain fragment where fr: "getitem item ''property_geojson'' = Inr fragment"
      by (cases "getitem item ''property_geojson''") (auto simp: extract_features_def ebind_simps)
    then obtain kvs where item: "item = JDict kvs" and kv: "map_of kvs ''property_geojson'' = Some fragment"
      by (cases item) (auto split: option.splits)
    show ?thesis
    proof (cases "is_valid_geojson p fragment")
      case False
      with found True fr assms have "p' = p" by (simp add: extract_features_def ebind_simps)
      moreover from False item kv have "spec_accepted p item = []"
        by (simp add: spec_accepted_def)
      ultimately show ?thesis using same by simp
    next
      case valid: True
      then obtain fkvs t where fragment: "fragment = JDict fkvs" and t: "map_of fkvs ''type'' = Some t"
        by (cases fragment) (auto split: option.splits)
      consider (feature) "t = JStr ''Feature''" | (collection) "t = JStr ''FeatureCollection''"
        | (other) "t \<noteq> JStr ''Feature''" "t \<noteq> JStr ''FeatureCollection''" by blast
      then show ?thesis
      proof cases
        case feature
        with assms found True fr valid fragment t obtain ok where ok: "is_valid_feature p fragment = Inr ok"
          by (cases "is_valid_feature p (JDict fkvs)") (auto simp: extract_features_def ebind_simps)
        have sp: "spec_accepted p item = (if ok then [fragment] else [])"
          using item kv valid fragment t feature ok by (simp add: spec_accepted_def)
        have "cap p [fragment] = [fragment]"
          using assms(1) by (auto simp: cap_def remaining_def limit_reached_def split: option.splits)
        with assms found True fr valid fragment t feature ok below sp same show ?thesis
          by (auto simp: extract_features_def ebind_simps)
      next
        case collection
        with valid fragment t obtain fs where fs: "map_of fkvs ''features'' = Some (JList fs)"
          by (auto split: option.splits elim: is_list.elims)
        with assms found True fr valid fragment t collection obtain vs where vs: "valid_features p fs = Inr vs"
          by (cases "valid_features p fs") (auto simp: extract_features_def ebind_simps)
        have sp: "spec_accepted p item = vs"
          using item kv valid fragment t collection fs valid_features_filter[OF vs]
          by (simp add: spec_accepted_def)
        from assms found True fr valid fragment t collection fs vs sp slice show ?thesis
          by (auto simp: extract_features_def ebind_simps cap_def split: option.splits)
      next
        case other
        with assms found True fr valid fragment t have "p' = p"
          by (simp add: extract_features_def ebind_simps)
        moreover from other item kv valid fragment t have "spec_accepted p item = []"
          by (simp add: spec_accepted_def)
        ultimately show ?thesis using same by simp
      qed
    qed
  qed
qed

lemma cap_reached: "limit_reached p \<Longrightarrow> cap p xs = []"
  by (auto simp: cap_def remaining_def limit_reached_def split: option.splits)

lemma cap_append:
  "cap p (xs @ ys) = cap p xs @ cap (p\<lparr>features := features p @ cap p xs\<rparr>) ys"
proof (cases "remaining p")
  case None
  then show ?thesis by (auto simp: cap_def remaining_def split: option.splits if_splits)
next
  case (Some r)
  then obtain l where l: "limit p = Some l" "l \<noteq> 0" "r = l - int (length (features p))"
    by (auto simp: remaining_def split: option.splits if_splits)
  have "nat r - length xs = nat (l - (int (length (features p)) + int (min (length xs) (nat r))))"
    using l(3) by arith
  with Some l show ?thesis
    by (simp add: cap_def remaining_def)
qed

lemma parse_items_accepted:
  "parse_items p items = (p', None) \<Longrightarrow>
   p' = p\<lparr>features := features p @ cap p (concat (map (spec_accepted p) items))\<rparr>"
proof (induction items arbitrary: p)
  case Nil
  then show ?case by (simp add: cap_def split: option.splits)
next
  case (Cons item rest)
  show ?case
  proof (cases "limit_reached p")
    case True
    with Cons.prems show ?thesis by (simp add: cap_reached)
  next
    case False
    with Cons.prems obtain p1 where p1: "extract_features p item = Inr p1"
      and rest: "parse_items p1 rest = (p', None)"
      by (cases "extract_features p item") auto
    from extract_features_accepted[OF False p1]
    have e: "p1 = p\<lparr>features := features p @ cap p (spec_accepted p item)\<rparr>" .
    from Cons.IH[OF rest]
    have "p' = p1\<lparr>features := features p1 @ cap p1 (concat (map (spec_accepted p1) rest))\<rparr>" .
    then show ?thesis
      by (subst (asm) (1 2 3 4) e) (simp add: cap_append)
  qed
qed

text \<open>A positive limit bounds the number of features through every step.\<close>

lemma cap_length:
  assumes "limit p = Some n" and "0 < n" and "int (length (features p)) \<le> n"
  shows "int (length (features p @ cap p xs)) \<le> n"
  using assms by (auto simp: cap_def remaining_def)

lemma extract_features_bound:
  assumes "limit p = Some n" and "0 < n" and "int (length (features p)) \<le> n"
    and "extract_features p item = Inr p'"
  shows "limit p' = Some n \<and> int (length (features p')) \<le> n"
proof (cases "limit_reached p")
  case True
  with assms show ?thesis by (simp add: extract_features_def)
next
  case False
  from extract_features_accepted[OF False assms(4)] cap_length[OF assms(1-3)] assms(1)
  show ?thesis by (metis (no_types, lifting) parser.select_convs(1) parser.surjective parser.update_convs(1) parser.select_convs(2))
qed

lemma parse_items_bound:
  assumes "limit p = Some n" and "0 < n" and "int (length (features p)) \<le> n"
  shows "limit (fst (parse_items p items)) = Some n \<and>
         int (length (features (fst (parse_items p items)))) \<le> n"
  using assms
proof (induction items arbitrary: p)
  case Nil
  then show ?case by simp
next
  case (Cons item rest)
  show ?case
  proof (cases "extract_features p item")
    case (Inl e)
    with Cons.prems show ?thesis by simp
  next
    case (Inr p1)
    from extract_features_bound[OF Cons.prems Inr] Cons.IH[of p1] Cons.prems(2) Cons.prems Inr
    show ?thesis by simp
  qed
qed

lemma parse_document_bound:
  assumes "limit p = Some n" and "0 < n" and "int (length (features p)) \<le> n"
  shows "int (length (features (fst (parse_document p document)))) \<le> n"
proof -
  have "int (length (features (fst (case r of Inl e \<Rightarrow> (p, Some e) | Inr items \<Rightarrow> parse_items p items)))) \<le> n"
    for r
    using parse_items_bound[OF assms] assms(3) by (cases r) simp_all
  moreover have "int (length (features (fst (case extract_features p document of
      Inl e \<Rightarrow> (p, Some e) | Inr p' \<Rightarrow> (p', None))))) \<le> n"
    using extract_features_bound[OF assms] assms(3)
    by (cases "extract_features p document") simp_all
  ultimately show ?thesis by (simp add: parse_document_def)
qed

lemma fst_parse_file_Document:
  "fst (parse_file p (Document d)) = fst (parse_document p d)"
  by (cases "parse_document p d") (simp split: option.splits)

lemma parse_file_bound:
  assumes "limit p = Some n" and "0 < n" and "int (length (features p)) \<le> n"
  shows "int (length (features (fst (parse_file p inp)))) \<le> n"
proof (cases inp)
  case (Document d)
  with parse_document_bound[OF assms, of d] show ?thesis
    by (simp only: fst_parse_file_Document)
qed (use assms in simp_all)

lemma parse_file_no_message:
  "parse_file p (Document d) = (p', []) \<Longrightarrow> parse_document p d = (p', None)"
  by (cases "parse_document p d") (auto split: option.splits)

text \<open>The orientation pass keeps the number of features, and so does the document written.\<close>

lemma fix_features_length:
  "fix_features fs = Inr (c, fs') \<Longrightarrow> length fs' = length fs"
proof (induction fs arbitrary: c fs')
  case Nil
  then show ?case by simp
next
  case (Cons f fs)
  from Cons.prems obtain ch f1 where f1: "fix_feature f = Inr (ch, f1)"
    by (cases "fix_feature f") (auto simp: ebind_simps)
  with Cons.prems obtain k rest where rest: "fix_features fs = Inr (k, rest)"
    by (cases "fix_features fs") (auto simp: ebind_simps)
  from Cons.IH[OF rest] Cons.prems f1 rest show ?case
    by (auto simp: ebind_simps)
qed

lemma main_written:
  "written (main l a f inp) = Some doc \<Longrightarrow>
   \<exists>fs. doc = JDict [(''type'', JStr ''FeatureCollection''), (''features'', JList fs)] \<and>
        length fs = length (features (fst (parse_file
          \<lparr>features = [], limit = l, require_geometry = \<not> a, geometry_types = f\<rparr> inp)))"
  by (auto simp: main_def save_geojson_def Let_def split: prod.splits sum.splits
      dest!: fix_features_length)

text \<open>A run of the loop or of a single extraction that did not raise, on a document of the expected shape.\<close>

lemma parse_document_accepted:
  assumes "\<not> has_non_sequence_data document" and "parse_document p document = (p', None)"
  shows "p' = p\<lparr>features := features p @ cap p (spec_found p document)\<rparr>"
proof -
  have single: "p' = p\<lparr>features := features p @ cap p (concat (map (spec_accepted p) [document]))\<rparr>"
    if "(case extract_features p document of Inl e \<Rightarrow> (p, Some e) | Inr p' \<Rightarrow> (p', None)) = (p', None)"
  proof (cases "limit_reached p")
    case True
    with that show ?thesis by (simp add: extract_features_def cap_reached)
  next
    case False
    from that obtain "extract_features p document = Inr p'"
      by (cases "extract_features p document") auto
    from extract_features_accepted[OF False this] show ?thesis by simp
  qed
  show ?thesis
  proof (cases document)
    case (JDict kvs)
    show ?thesis
    proof (cases "map_of kvs ''data''")
      case None
      with JDict assms single show ?thesis
        by (simp add: parse_document_def spec_found_def spec_records_def)
    next
      case (Some v)
      with JDict assms(1) obtain items where "v = JList items"
        by (cases v) (simp_all add: has_non_sequence_data_def)
      with JDict Some assms(2) parse_items_accepted[of p items p'] show ?thesis
        by (simp add: parse_document_def spec_found_def spec_records_def ebind_simps)
    qed
  qed (use assms single in \<open>simp_all add: parse_document_def spec_found_def spec_records_def\<close>)
qed

lemmas example_defs =
  default_parser_def point_feature_def linestring_feature_def record_of_def collection_of_def
  data_document_def

lemmas run_defs =
  parse_document_def extract_features_def ebind_simps limit_reached_def below_limit_def
  remaining_def slice_to_def has_geometry_def upper_char_def getattr_GeometryTypes_def
  GeometryTypes_defs

lemmas spec_defs = spec_found_def spec_records_def spec_accepted_def has_non_sequence_data_def

text \<open>
  C5, as amended. On a mapping whose \<open>data\<close> value is a list the code extracts from each
  element in order and stops once the limit is reached; on a document that is no mapping or
  has no \<open>data\<close> key it extracts from the document itself: on both it does what
  \<open>spec_parseTopLevel\<close> does. On a mapping whose \<open>data\<close> value is not a list it never
  extracts from the document itself: it iterates over that value (the keys of a mapping,
  the characters of a string) and extracts from each item, and a value that cannot be
  iterated (null, a boolean, a number) ends the run with the TypeError.
\<close>

theorem top_level_dispatch:
  "parse_document p document =
     (case document of
        JDict kvs \<Rightarrow>
          (case map_of kvs ''data'' of
             None \<Rightarrow> spec_parseTopLevel p document
           | Some v \<Rightarrow>
               if is_list v then spec_parseTopLevel p document
               else (case iterate v of
                       Inl e \<Rightarrow> (p, Some e)
                     | Inr items \<Rightarrow> parse_items p items))
      | _ \<Rightarrow> spec_parseTopLevel p document)"
proof (cases document)
  case (JDict kvs)
  show ?thesis
  proof (cases "map_of kvs ''data''")
    case None
    with JDict show ?thesis by (simp add: parse_document_def spec_parseTopLevel_def)
  next
    case (Some v)
    with JDict show ?thesis
      by (cases v) (simp_all add: parse_document_def spec_parseTopLevel_def ebind_simps)
  qed
qed (simp_all add: parse_document_def spec_parseTopLevel_def)

text \<open>
  C5 as stated has the document itself searched when \<open>data\<close> is not a sequence. For a
  document with a null \<open>data\<close> and a valid \<open>property_geojson\<close> the code raises where that
  reading extracts the feature.
\<close>

theorem data_not_sequence_differs:
  "parse_document
     \<lparr>features = [], limit = None, require_geometry = True, geometry_types = ALL_flag\<rparr>
     (JDict [(''data'', JNull),
             (''property_geojson'',
                JDict [(''type'', JStr ''Feature''), (''properties'', JDict []),
                       (''geometry'', JDict [(''type'', JStr ''Point''),
                                             (''coordinates'', JList [JInt 1, JInt 2])])])]) \<noteq>
   spec_parseTopLevel
     \<lparr>features = [], limit = None, require_geometry = True, geometry_types = ALL_flag\<rparr>
     (JDict [(''data'', JNull),
             (''property_geojson'',
                JDict [(''type'', JStr ''Feature''), (''properties'', JDict []),
                       (''geometry'', JDict [(''type'', JStr ''Point''),
                                             (''coordinates'', JList [JInt 1, JInt 2])])])])"
  by (simp add: parse_document_def spec_parseTopLevel_def extract_features_def ebind_simps
      limit_reached_def below_limit_def has_geometry_def upper_char_def
      getattr_GeometryTypes_def GeometryTypes_defs)






section \<open>Rounding\<close>

text \<open>\<open>exponent\<close> finds the binade of a number, and only one exponent fits.\<close>

lemma powi_neg: "0 \<le> k \<Longrightarrow> (2::rat) powi (- k) = 1 / 2 ^ nat k"
  by (simp add: power_int_minus_divide power_int_nonneg_exp)

lemma exponent_bounds:
  assumes "x \<noteq> 0"
  shows "2 powi exponent x \<le> \<bar>x\<bar> \<and> \<bar>x\<bar> < 2 powi (exponent x + 1)"
proof (cases "1 \<le> \<bar>x\<bar>")
  case True
  define n where "n = \<lfloor>\<bar>x\<bar>\<rfloor>"
  have n: "0 < n" using True by (simp add: n_def)
  have e: "exponent x = bitlen n - 1" using True by (simp add: exponent_def n_def)
  from n have b: "1 \<le> bitlen n" by (simp add: bitlen_alt_def)
  from bitlen_bounds[OF n] have lo: "2 ^ nat (bitlen n - 1) \<le> n" and hi: "n < 2 ^ nat (bitlen n)"
    by auto
  have "(2::rat) powi exponent x = of_int (2 ^ nat (bitlen n - 1))"
    using b by (simp add: e power_int_def)
  also have "\<dots> \<le> of_int n" using lo by (simp only: of_int_le_iff)
  also have "\<dots> \<le> \<bar>x\<bar>" by (simp add: n_def)
  finally have 1: "2 powi exponent x \<le> \<bar>x\<bar>" .
  have "\<bar>x\<bar> < of_int (n + 1)" using floor_correct[of "\<bar>x\<bar>"] by (simp add: n_def)
  also have "\<dots> \<le> of_int (2 ^ nat (bitlen n))"
  proof -
    from hi have "n + 1 \<le> 2 ^ nat (bitlen n)" by simp
    then show ?thesis by (simp only: of_int_le_iff)
  qed
  also have "\<dots> = (2::rat) powi (exponent x + 1)"
    using b by (simp add: e power_int_def)
  finally show ?thesis using 1 by simp
next
  case False
  define y where "y = 1 / \<bar>x\<bar>"
  define m where "m = \<lceil>y\<rceil> - 1"
  from False assms have y1: "1 < y" by (simp add: y_def)
  then have m: "0 < m" by (simp add: m_def)
  have my: "of_int m < y" "y \<le> of_int m + 1"
    by (simp_all add: m_def) linarith+
  have e: "exponent x = - bitlen m" using False by (simp add: exponent_def m_def y_def)
  from m have b: "1 \<le> bitlen m" by (simp add: bitlen_alt_def)
  from bitlen_bounds[OF m] have lo: "2 ^ nat (bitlen m - 1) \<le> m" and hi: "m < 2 ^ nat (bitlen m)"
    by auto
  have "(2::rat) ^ nat (bitlen m - 1) = of_int (2 ^ nat (bitlen m - 1))" by simp
  also have "\<dots> \<le> of_int m" using lo by (simp only: of_int_le_iff)
  also have "\<dots> < y" by (rule my(1))
  finally have ylo: "2 ^ nat (bitlen m - 1) < y" .
  have "y \<le> of_int (m + 1)" using my(2) by simp
  also have "\<dots> \<le> of_int (2 ^ nat (bitlen m))"
  proof -
    from hi have "m + 1 \<le> 2 ^ nat (bitlen m)" by simp
    then show ?thesis by (simp only: of_int_le_iff)
  qed
  also have "\<dots> = 2 ^ nat (bitlen m)" by simp
  finally have yhi: "y \<le> 2 ^ nat (bitlen m)" .
  have x: "\<bar>x\<bar> = 1 / y" by (simp add: y_def)
  have y0: "0 < y" using y1 by simp
  have p1: "(2::rat) powi exponent x = 1 / 2 ^ nat (bitlen m)"
    unfolding e using b by (intro powi_neg) simp
  have p2: "(2::rat) powi (exponent x + 1) = 1 / 2 ^ nat (bitlen m - 1)"
  proof -
    have "exponent x + 1 = - (bitlen m - 1)" by (simp add: e)
    then have "(2::rat) powi (exponent x + 1) = 2 powi (- (bitlen m - 1))" by (simp only:)
    also have "\<dots> = 1 / 2 ^ nat (bitlen m - 1)" using b by (intro powi_neg) simp
    finally show ?thesis .
  qed
  have 1: "2 powi exponent x \<le> \<bar>x\<bar>"
    unfolding p1 x using yhi y0 by (simp add: field_simps)
  have 2: "\<bar>x\<bar> < 2 powi (exponent x + 1)"
    unfolding p2 x using ylo y0 by (simp add: field_simps)
  from 1 2 show ?thesis by simp
qed

lemma exponent_unique:
  assumes "2 powi e \<le> \<bar>x\<bar>" and "\<bar>x\<bar> < 2 powi (e + 1)"
  shows "exponent x = e"
proof -
  have "(0::rat) < 2 powi e" by (rule zero_less_power_int) simp
  with assms(1) have "0 < \<bar>x\<bar>" by linarith
  then have x: "x \<noteq> 0" by simp
  note b = exponent_bounds[OF x]
  have "\<not> exponent x < e"
  proof
    assume "exponent x < e"
    then have "(2::rat) powi (exponent x + 1) \<le> 2 powi e"
      by (intro power_int_increasing) simp_all
    with b assms show False by simp
  qed
  moreover have "\<not> e < exponent x"
  proof
    assume "e < exponent x"
    then have "(2::rat) powi (e + 1) \<le> 2 powi exponent x"
      by (intro power_int_increasing) simp_all
    with b assms show False by simp
  qed
  ultimately show ?thesis by simp
qed

text \<open>Rounding a given number, once its binade and the rounded significand are known.\<close>

lemma fl_eval:
  assumes "2 powi e \<le> \<bar>x\<bar>" and "\<bar>x\<bar> < 2 powi (e + 1)"
    and "round_even (x / 2 powi (e - 52)) = m"
  shows "fl x = of_int m * 2 powi (e - 52)"
proof -
  have "(0::rat) < 2 powi e" by (rule zero_less_power_int) simp
  with assms(1) have "0 < \<bar>x\<bar>" by linarith
  then have x: "x \<noteq> 0" by simp
  with exponent_unique[OF assms(1,2)] assms(3) show ?thesis by (simp add: fl_def)
qed

lemma floor_rat_numeral [simp]:
  "\<lfloor>(numeral a :: rat) / numeral b\<rfloor> = numeral a div numeral b"
  "\<lfloor>- ((numeral a :: rat) / numeral b)\<rfloor> = - numeral a div numeral b"
  using floor_divide_of_int_eq[of "numeral a" "numeral b", where ?'a = rat]
    floor_divide_of_int_eq[of "- numeral a" "numeral b", where ?'a = rat]
  by simp_all

lemma fl_one: "fl 1 = 1" "fl (- 1) = - 1"
  by (rule trans[OF fl_eval[where e = 0 and m = "2 ^ 52"]], simp_all add: round_even_def)
     (rule trans[OF fl_eval[where e = 0 and m = "- (2 ^ 52)"]], simp_all add: round_even_def)

text \<open>Rounding keeps the sign.\<close>

lemma round_even_bounds: "\<lfloor>y\<rfloor> \<le> round_even y \<and> round_even y \<le> \<lfloor>y\<rfloor> + 1"
  by (simp add: round_even_def Let_def)

lemma fl_pos:
  assumes "0 < x"
  shows "0 < fl x"
proof -
  let ?u = "(2::rat) powi (exponent x - 52)"
  have u: "0 < ?u" by (rule zero_less_power_int) simp
  from assms have x: "x \<noteq> 0" by simp
  have "?u \<le> 2 powi exponent x" by (intro power_int_increasing) simp_all
  also have "\<dots> \<le> x" using exponent_bounds[OF x] assms by simp
  finally have "1 \<le> x / ?u" using u by (simp add: field_simps)
  then have "1 \<le> \<lfloor>x / ?u\<rfloor>" by simp
  with round_even_bounds[of "x / ?u"] have "0 < round_even (x / ?u)" by linarith
  with u x show ?thesis by (simp add: fl_def)
qed

lemma fl_neg:
  assumes "x < 0"
  shows "fl x < 0"
proof -
  let ?u = "(2::rat) powi (exponent x - 52)"
  have u: "0 < ?u" by (rule zero_less_power_int) simp
  from assms have x: "x \<noteq> 0" by simp
  have "(2::rat) powi (exponent x - 52 + 1) = 2 powi (exponent x - 52) * 2 powi 1"
    by (rule power_int_add) simp
  then have "2 * ?u = 2 powi (exponent x - 52 + 1)" by simp
  also have "\<dots> \<le> 2 powi exponent x" by (intro power_int_increasing) simp_all
  also have "\<dots> \<le> - x" using exponent_bounds[OF x] assms by simp
  finally have "x / ?u \<le> - 2" using u by (simp add: field_simps)
  then have "\<lfloor>x / ?u\<rfloor> \<le> - 2" by (simp add: floor_le_iff)
  with round_even_bounds[of "x / ?u"] have "round_even (x / ?u) < 0" by linarith
  with u x show ?thesis by (simp add: fl_def mult_neg_pos)
qed

lemma fl_sign:
  "(fl x < 0) = (x < 0)" "(0 < fl x) = (0 < x)" "(0 \<le> fl x) = (0 \<le> x)" "(fl x \<le> 0) = (x \<le> 0)"
  using fl_pos[of x] fl_neg[of x] by (cases "x = 0"; cases "x < 0"; force)+

section \<open>Orientation\<close>

text \<open>On a ring of numeric points every step of \<open>calculate_area\<close> returns.\<close>

lemma numeric_point_coords:
  assumes "numeric_point pt"
  shows "\<exists>a b x y. getindex pt 0 = Inr a \<and> getindex pt (Suc 0) = Inr b \<and>
           number a = Some x \<and> number b = Some y"
  using assms by (cases pt rule: numeric_point.cases) auto

lemma area_step_numeric:
  assumes "list_all numeric_point pts" and "Suc i < length pts"
  shows "\<exists>area'. area_step (JList pts) area i = Inr area'"
proof -
  from assms have "numeric_point (pts ! i)" "numeric_point (pts ! Suc i)"
    by (simp_all add: list_all_length)
  from numeric_point_coords[OF this(1)] numeric_point_coords[OF this(2)] assms(2)
  show ?thesis
    by (auto simp: area_step_def coord_def product_def ebind_simps)
qed

lemma area_loop_numeric:
  assumes "list_all numeric_point pts" and "\<forall>i\<in>set is. Suc i < length pts"
  shows "\<exists>area'. area_loop (JList pts) area is = Inr area'"
  using assms(2)
proof (induction "is" arbitrary: area)
  case Nil
  then show ?case by simp
next
  case (Cons i "is")
  from area_step_numeric[OF assms(1), of i area] Cons.prems obtain a where
    "area_step (JList pts) area i = Inr a" by auto
  with Cons.IH[of a] Cons.prems show ?case by (simp add: ebind_simps)
qed

lemma calculate_area_numeric:
  assumes "numeric_ring ring"
  shows "calculate_area ring = Inr (computed_area ring)"
proof -
  from assms obtain pts where ring: "ring = JList pts" and pts: "list_all numeric_point pts"
    by (cases ring) auto
  have "\<forall>i\<in>set [0..<length pts - 1]. Suc i < length pts" by auto
  from area_loop_numeric[OF pts this, of "PInt 0"] obtain a where
    "area_loop (JList pts) (PInt 0) [0..<length pts - 1] = Inr a" by auto
  with ring show ?thesis
    by (simp add: calculate_area_def computed_area_def ebind_simps)
qed

lemma numeric_ring_reversed: "numeric_ring ring \<Longrightarrow> numeric_ring (reversed ring)"
  by (cases ring) simp_all

lemma reverse_ring_numeric: "numeric_ring ring \<Longrightarrow> reverse_ring ring = Inr (reversed ring)"
  by (cases ring) simp_all

text \<open>What is reversed is decided by the sign of the computed area.\<close>

lemma fix_exterior_numeric:
  assumes "numeric_ring ring"
  shows "fix_exterior ring =
     Inr (computed_area ring < 0, if computed_area ring < 0 then reversed ring else ring)"
  using assms
  by (simp add: fix_exterior_def calculate_area_numeric reverse_ring_numeric ebind_simps)

lemma fix_interior_numeric:
  assumes "numeric_ring ring"
  shows "fix_interior ring =
     Inr (0 < computed_area ring, if 0 < computed_area ring then reversed ring else ring)"
  using assms
  by (simp add: fix_interior_def calculate_area_numeric reverse_ring_numeric ebind_simps)

lemma fix_interiors_numeric:
  assumes "list_all numeric_ring holes"
  shows "fix_interiors holes =
     Inr (\<exists>h\<in>set holes. 0 < computed_area h,
          map (\<lambda>h. if 0 < computed_area h then reversed h else h) holes)"
  using assms by (induction holes) (simp_all add: fix_interior_numeric ebind_simps)

lemma fix_polygon_orientation_numeric:
  assumes "list_all numeric_ring (ring # holes)"
  shows "fix_polygon_orientation (JList (ring # holes)) =
     Inr (computed_area ring < 0 \<or> (\<exists>h\<in>set holes. 0 < computed_area h),
          JList ((if computed_area ring < 0 then reversed ring else ring) #
                 map (\<lambda>h. if 0 < computed_area h then reversed h else h) holes))"
  using assms
  by (simp add: fix_polygon_orientation_def fix_exterior_numeric fix_interiors_numeric ebind_simps)

text \<open>With integer coordinates the accumulation stays in \<open>int\<close> and is the sum of section 4.2.\<close>

lemma integer_point_coords:
  assumes "integer_point pt"
  shows "\<exists>a b. getindex pt 0 = Inr a \<and> getindex pt (Suc 0) = Inr b \<and>
           number a = Some (PInt (fst (xy pt))) \<and> number b = Some (PInt (snd (xy pt)))"
proof -
  have n: "number v = Some (PInt (num v))" if "integer v \<noteq> None" for v
    using that by (cases v) (simp_all add: num_def)
  from assms show ?thesis
    by (cases pt rule: integer_point.cases) (simp_all add: n)
qed

lemma area_step_integer:
  assumes "list_all integer_point pts" and "Suc i < length pts"
  shows "area_step (JList pts) (PInt area) i =
     Inr (PInt (area + (fst (map xy pts ! i) * snd (map xy pts ! Suc i) -
                        fst (map xy pts ! Suc i) * snd (map xy pts ! i))))"
proof -
  from assms have "integer_point (pts ! i)" "integer_point (pts ! Suc i)"
    by (simp_all add: list_all_length)
  from integer_point_coords[OF this(1)] integer_point_coords[OF this(2)] assms(2)
  show ?thesis
    by (auto simp: area_step_def coord_def product_def ebind_simps)
qed

lemma area_loop_integer:
  assumes "list_all integer_point pts" and "\<forall>i\<in>set is. Suc i < length pts"
  shows "area_loop (JList pts) (PInt area) is =
     Inr (PInt (area + (\<Sum>i\<leftarrow>is. fst (map xy pts ! i) * snd (map xy pts ! Suc i) -
                                 fst (map xy pts ! Suc i) * snd (map xy pts ! i))))"
  using assms(2)
proof (induction "is" arbitrary: area)
  case Nil
  then show ?case by simp
next
  case (Cons i "is")
  then show ?case
    by (simp add: area_step_integer[OF assms(1)] ebind_simps algebra_simps)
qed

lemma calculate_area_wf:
  assumes "wf_ring ring"
  shows "calculate_area ring = Inr (fl (spec_signed_area ring))"
proof -
  from assms obtain pts where ring: "ring = JList pts" and pts: "list_all integer_point pts"
    by (cases ring) auto
  have "\<forall>i\<in>set [0..<length pts - 1]. Suc i < length pts" by auto
  from area_loop_integer[OF pts this, of 0] ring show ?thesis
    by (simp add: calculate_area_def ebind_simps spec_signed_area_def shoelace_sum_def
        interv_sum_list_conv_sum_set_nat atLeast0LessThan)
qed

lemma integer_point_numeric: "integer_point pt \<Longrightarrow> numeric_point pt"
proof -
  have "number v \<noteq> None" if "integer v \<noteq> None" for v
    using that by (cases v) simp_all
  then show "integer_point pt \<Longrightarrow> numeric_point pt"
    by (cases pt rule: integer_point.cases) simp_all
qed

lemma wf_ring_numeric: "wf_ring ring \<Longrightarrow> numeric_ring ring"
  by (cases ring) (auto simp: list_all_iff integer_point_numeric)

lemma computed_area_wf: "wf_ring ring \<Longrightarrow> computed_area ring = fl (spec_signed_area ring)"
  by (simp add: computed_area_def calculate_area_wf)

text \<open>Reversing a ring negates the sum.\<close>

lemma shoelace_sum_rev: "shoelace_sum (rev ps) = - shoelace_sum ps"
proof -
  let ?m = "length ps - 1"
  let ?t = "\<lambda>i. fst (ps ! i) * snd (ps ! (i + 1)) - fst (ps ! (i + 1)) * snd (ps ! i)"
  have "(\<Sum>i<?m. fst (rev ps ! i) * snd (rev ps ! (i + 1)) - fst (rev ps ! (i + 1)) * snd (rev ps ! i))
      = (\<Sum>i<?m. - ?t (?m - Suc i))"
  proof (rule sum.cong)
    fix i assume "i \<in> {..<?m}"
    then have i: "Suc i < length ps" by auto
    then have "rev ps ! i = ps ! (?m - Suc i + 1)" "rev ps ! (i + 1) = ps ! (?m - Suc i)"
      by (simp_all add: rev_nth Suc_diff_Suc)
    then show "fst (rev ps ! i) * snd (rev ps ! (i + 1)) - fst (rev ps ! (i + 1)) * snd (rev ps ! i)
        = - ?t (?m - Suc i)"
      by simp
  qed simp
  also have "\<dots> = - (\<Sum>i<?m. ?t (?m - Suc i))"
    by (rule sum_negf)
  also have "(\<Sum>i<?m. ?t (?m - Suc i)) = (\<Sum>i<?m. ?t i)"
    by (rule sum.nat_diff_reindex)
  finally show ?thesis by (simp add: shoelace_sum_def)
qed

lemma wf_ring_reversed: "wf_ring ring \<Longrightarrow> wf_ring (reversed ring)"
  by (cases ring) simp_all

lemma ring_points_reversed: "ring_points (reversed ring) = rev (ring_points ring)"
  by (cases ring) (simp_all add: rev_map)

lemma spec_signed_area_reversed: "spec_signed_area (reversed ring) = - spec_signed_area ring"
  by (simp add: spec_signed_area_def ring_points_reversed shoelace_sum_rev)

lemma reverse_ring_wf: "wf_ring ring \<Longrightarrow> reverse_ring ring = Inr (reversed ring)"
  by (cases ring) simp_all

lemma fix_exterior_wf:
  assumes "wf_ring ring"
  shows "fix_exterior ring =
     Inr (spec_signed_area ring < 0, if spec_signed_area ring < 0 then reversed ring else ring)"
  using assms
  by (simp add: fix_exterior_def calculate_area_wf reverse_ring_wf ebind_simps fl_sign)

lemma fix_interior_wf:
  assumes "wf_ring ring"
  shows "fix_interior ring =
     Inr (0 < spec_signed_area ring, if 0 < spec_signed_area ring then reversed ring else ring)"
  using assms
  by (simp add: fix_interior_def calculate_area_wf reverse_ring_wf ebind_simps fl_sign)

lemma fix_interiors_wf:
  assumes "list_all wf_ring holes"
  shows "fix_interiors holes =
     Inr (\<exists>h\<in>set holes. 0 < spec_signed_area h,
          map (\<lambda>h. if 0 < spec_signed_area h then reversed h else h) holes)"
  using assms by (induction holes) (simp_all add: fix_interior_wf ebind_simps)

lemma fix_polygon_orientation_wf:
  assumes "list_all wf_ring (ring # holes)"
  shows "fix_polygon_orientation (JList (ring # holes)) =
     Inr (spec_signed_area ring < 0 \<or> (\<exists>h\<in>set holes. 0 < spec_signed_area h),
          JList ((if spec_signed_area ring < 0 then reversed ring else ring) #
                 map (\<lambda>h. if 0 < spec_signed_area h then reversed h else h) holes))"
  using assms
  by (simp add: fix_polygon_orientation_def fix_exterior_wf fix_interiors_wf ebind_simps)

lemma exterior_result:
  assumes "wf_ring ring"
  shows "wf_ring (if spec_signed_area ring < 0 then reversed ring else ring) \<and>
         0 \<le> spec_signed_area (if spec_signed_area ring < 0 then reversed ring else ring)"
  using assms by (simp add: wf_ring_reversed spec_signed_area_reversed)

lemma hole_result:
  assumes "wf_ring ring"
  shows "wf_ring (if 0 < spec_signed_area ring then reversed ring else ring) \<and>
         spec_signed_area (if 0 < spec_signed_area ring then reversed ring else ring) \<le> 0"
  using assms by (simp add: wf_ring_reversed spec_signed_area_reversed)

lemma square_areas:
  "spec_signed_area clockwise_square = - 1" "spec_signed_area counterclockwise_square = 1"
  by (simp_all add: spec_signed_area_def shoelace_sum_def clockwise_square_def
      counterclockwise_square_def num_def lessThan_Suc eval_nat_numeral)

lemma squares_wf: "wf_ring clockwise_square" "wf_ring counterclockwise_square"
  by (simp_all add: clockwise_square_def counterclockwise_square_def)

lemma squares_reversed:
  "reversed clockwise_square = counterclockwise_square"
  "reversed counterclockwise_square = clockwise_square"
  by (simp_all add: clockwise_square_def counterclockwise_square_def)



text \<open>
  The float ring of three collinear points. The general shape of the computation on four
  points of floats, the doubles of the literals, and every rounding step on the ring and
  on its reversal:
\<close>

lemma calculate_area_four_floats:
  "calculate_area (JList [JList [JFloat x0, JFloat y0], JList [JFloat x1, JFloat y1],
                          JList [JFloat x2, JFloat y2], JList [JFloat x3, JFloat y3]]) =
   Inr (fl (fl (fl (fl (fl (fl (fl (fl (x0 * y1)) - fl (x1 * y0)) + fl (x1 * y2)) - fl (x2 * y1))
                    + fl (x2 * y3)) - fl (x3 * y2)) / 2))"
  by (simp add: calculate_area_def area_step_def coord_def product_def ebind_simps upt_rec)

lemma literal_doubles:
  "fl (1 / 10) = 3602879701896397 / 36028797018963968"
  "fl (2 / 10) = 3602879701896397 / 18014398509481984"
  "fl (3 / 10) = 5404319552844595 / 18014398509481984"
  "fl (9 / 10) = 8106479329266893 / 9007199254740992"
  "fl (1) = 1"
proof -
  show "fl (1 / 10) = 3602879701896397 / 36028797018963968"
    by (rule trans[OF fl_eval[where e = "- 4" and m = "7205759403792794"]])
       (simp_all add: round_even_def Let_def)
  show "fl (2 / 10) = 3602879701896397 / 18014398509481984"
    by (rule trans[OF fl_eval[where e = "- 3" and m = "7205759403792794"]])
       (simp_all add: round_even_def Let_def)
  show "fl (3 / 10) = 5404319552844595 / 18014398509481984"
    by (rule trans[OF fl_eval[where e = "- 2" and m = "5404319552844595"]])
       (simp_all add: round_even_def Let_def)
  show "fl (9 / 10) = 8106479329266893 / 9007199254740992"
    by (rule trans[OF fl_eval[where e = "- 1" and m = "8106479329266893"]])
       (simp_all add: round_even_def Let_def)
  show "fl (1) = 1"
    by (rule trans[OF fl_eval[where e = "0" and m = "4503599627370496"]])
       (simp_all add: round_even_def Let_def)
qed

lemma rounding_steps:
  "fl (0 * (5404319552844595 / 18014398509481984)) = 0"
  "fl (0) = 0"
  "fl ((3602879701896397 / 18014398509481984) * (3602879701896397 / 36028797018963968)) = 1441151880758559 / 72057594037927936"
  "fl (0 - (1441151880758559 / 72057594037927936)) = - (1441151880758559 / 72057594037927936)"
  "fl ((3602879701896397 / 18014398509481984) * 1) = 3602879701896397 / 18014398509481984"
  "fl ((- (1441151880758559 / 72057594037927936)) + (3602879701896397 / 18014398509481984)) = 3242591731706757 / 18014398509481984"
  "fl ((8106479329266893 / 9007199254740992) * (5404319552844595 / 18014398509481984)) = 607985949695017 / 2251799813685248"
  "fl ((3242591731706757 / 18014398509481984) - (607985949695017 / 2251799813685248)) = - (1621295865853379 / 18014398509481984)"
  "fl ((8106479329266893 / 9007199254740992) * (3602879701896397 / 36028797018963968)) = 6485183463413515 / 72057594037927936"
  "fl ((- (1621295865853379 / 18014398509481984)) + (6485183463413515 / 72057594037927936)) = - (1 / 72057594037927936)"
  "fl (0 * 1) = 0"
  "fl ((- (1 / 72057594037927936)) - 0) = - (1 / 72057594037927936)"
  "fl ((- (1 / 72057594037927936)) / 2) = - (1 / 144115188075855872)"
  "fl (0 - (6485183463413515 / 72057594037927936)) = - (6485183463413515 / 72057594037927936)"
  "fl ((- (6485183463413515 / 72057594037927936)) + (607985949695017 / 2251799813685248)) = 3242591731706757 / 18014398509481984"
  "fl ((3242591731706757 / 18014398509481984) - (3602879701896397 / 18014398509481984)) = - (45035996273705 / 2251799813685248)"
  "fl ((- (45035996273705 / 2251799813685248)) + (1441151880758559 / 72057594037927936)) = - (1 / 72057594037927936)"
proof -
  show "fl (0 * (5404319552844595 / 18014398509481984)) = 0"
    by simp
  show "fl (0) = 0"
    by simp
  show "fl ((3602879701896397 / 18014398509481984) * (3602879701896397 / 36028797018963968)) = 1441151880758559 / 72057594037927936"
    by (rule trans[OF fl_eval[where e = "- 6" and m = "5764607523034236"]])
       (simp_all add: round_even_def Let_def)
  show "fl (0 - (1441151880758559 / 72057594037927936)) = - (1441151880758559 / 72057594037927936)"
    by (rule trans[OF fl_eval[where e = "- 6" and m = "- 5764607523034236"]])
       (simp_all add: round_even_def Let_def)
  show "fl ((3602879701896397 / 18014398509481984) * 1) = 3602879701896397 / 18014398509481984"
    by (rule trans[OF fl_eval[where e = "- 3" and m = "7205759403792794"]])
       (simp_all add: round_even_def Let_def)
  show "fl ((- (1441151880758559 / 72057594037927936)) + (3602879701896397 / 18014398509481984)) = 3242591731706757 / 18014398509481984"
    by (rule trans[OF fl_eval[where e = "- 3" and m = "6485183463413514"]])
       (simp_all add: round_even_def Let_def)
  show "fl ((8106479329266893 / 9007199254740992) * (5404319552844595 / 18014398509481984)) = 607985949695017 / 2251799813685248"
    by (rule trans[OF fl_eval[where e = "- 2" and m = "4863887597560136"]])
       (simp_all add: round_even_def Let_def)
  show "fl ((3242591731706757 / 18014398509481984) - (607985949695017 / 2251799813685248)) = - (1621295865853379 / 18014398509481984)"
    by (rule trans[OF fl_eval[where e = "- 4" and m = "- 6485183463413516"]])
       (simp_all add: round_even_def Let_def)
  show "fl ((8106479329266893 / 9007199254740992) * (3602879701896397 / 36028797018963968)) = 6485183463413515 / 72057594037927936"
    by (rule trans[OF fl_eval[where e = "- 4" and m = "6485183463413515"]])
       (simp_all add: round_even_def Let_def)
  show "fl ((- (1621295865853379 / 18014398509481984)) + (6485183463413515 / 72057594037927936)) = - (1 / 72057594037927936)"
    by (rule trans[OF fl_eval[where e = "- 56" and m = "- 4503599627370496"]])
       (simp_all add: round_even_def Let_def)
  show "fl (0 * 1) = 0"
    by simp
  show "fl ((- (1 / 72057594037927936)) - 0) = - (1 / 72057594037927936)"
    by (rule trans[OF fl_eval[where e = "- 56" and m = "- 4503599627370496"]])
       (simp_all add: round_even_def Let_def)
  show "fl ((- (1 / 72057594037927936)) / 2) = - (1 / 144115188075855872)"
    by (rule trans[OF fl_eval[where e = "- 57" and m = "- 4503599627370496"]])
       (simp_all add: round_even_def Let_def)
  show "fl (0 - (6485183463413515 / 72057594037927936)) = - (6485183463413515 / 72057594037927936)"
    by (rule trans[OF fl_eval[where e = "- 4" and m = "- 6485183463413515"]])
       (simp_all add: round_even_def Let_def)
  show "fl ((- (6485183463413515 / 72057594037927936)) + (607985949695017 / 2251799813685248)) = 3242591731706757 / 18014398509481984"
    by (rule trans[OF fl_eval[where e = "- 3" and m = "6485183463413514"]])
       (simp_all add: round_even_def Let_def)
  show "fl ((3242591731706757 / 18014398509481984) - (3602879701896397 / 18014398509481984)) = - (45035996273705 / 2251799813685248)"
    by (rule trans[OF fl_eval[where e = "- 6" and m = "- 5764607523034240"]])
       (simp_all add: round_even_def Let_def)
  show "fl ((- (45035996273705 / 2251799813685248)) + (1441151880758559 / 72057594037927936)) = - (1 / 72057594037927936)"
    by (rule trans[OF fl_eval[where e = "- 56" and m = "- 4503599627370496"]])
       (simp_all add: round_even_def Let_def)
qed

lemma collinear_ring_doubles:
  "collinear_ring =
     JList [JList [JFloat (0), JFloat (3602879701896397 / 36028797018963968)],
            JList [JFloat (3602879701896397 / 18014398509481984), JFloat (5404319552844595 / 18014398509481984)],
            JList [JFloat (8106479329266893 / 9007199254740992), JFloat (1)],
            JList [JFloat (0), JFloat (3602879701896397 / 36028797018963968)]]"
  "reversed collinear_ring =
     JList [JList [JFloat (0), JFloat (3602879701896397 / 36028797018963968)],
            JList [JFloat (8106479329266893 / 9007199254740992), JFloat (1)],
            JList [JFloat (3602879701896397 / 18014398509481984), JFloat (5404319552844595 / 18014398509481984)],
            JList [JFloat (0), JFloat (3602879701896397 / 36028797018963968)]]"
  unfolding collinear_ring_def float_literal_def literal_doubles fl_zero reversed.simps rev.simps
    append.simps
  by (rule refl)+

lemma collinear_ring_area: "calculate_area collinear_ring = Inr (- (1 / 2 ^ 57))"
  unfolding collinear_ring_doubles(1) calculate_area_four_floats rounding_steps
  by simp

lemma collinear_ring_reversed_area:
  "calculate_area (reversed collinear_ring) = Inr (- (1 / 2 ^ 57))"
  unfolding collinear_ring_doubles(2) calculate_area_four_floats rounding_steps
  by simp

lemma collinear_ring_list:
  "reverse_ring collinear_ring = Inr (reversed collinear_ring)"
  "reverse_ring (reversed collinear_ring) = Inr collinear_ring"
  by (simp_all add: collinear_ring_def)


text \<open>A second application to a polygon or to a list of polygons with integer coordinates.\<close>

lemma polygon_twice:
  assumes "wf_polygon c"
  shows "\<exists>changed c'. fix_polygon_orientation c = Inr (changed, c') \<and> wf_polygon c' \<and>
           fix_polygon_orientation c' = Inr (False, c')"
proof -
  from assms obtain ring holes where c: "c = JList (ring # holes)"
    and wf: "list_all wf_ring (ring # holes)"
    by (cases c; cases "case c of JList rs \<Rightarrow> rs | _ \<Rightarrow> []") auto
  let ?r = "if spec_signed_area ring < 0 then reversed ring else ring"
  let ?hs = "map (\<lambda>h. if 0 < spec_signed_area h then reversed h else h) holes"
  have wf': "list_all wf_ring (?r # ?hs)"
    using wf by (auto simp: list_all_iff wf_ring_reversed)
  have r: "\<not> spec_signed_area ?r < 0"
    using wf exterior_result[of ring] by auto
  have hs: "\<not> 0 < spec_signed_area h" if "h \<in> set ?hs" for h
    using that wf hole_result by (fastforce simp: list_all_iff)
  have same: "map (\<lambda>h. if 0 < spec_signed_area h then reversed h else h) ?hs = ?hs"
  proof (rule map_idI)
    fix h assume "h \<in> set ?hs"
    from hs[OF this] show "(if 0 < spec_signed_area h then reversed h else h) = h" by simp
  qed
  have "fix_polygon_orientation (JList (?r # ?hs)) = Inr (False, JList (?r # ?hs))"
    unfolding fix_polygon_orientation_wf[OF wf'] using r hs same by auto
  with fix_polygon_orientation_wf[OF wf] wf' c show ?thesis by auto
qed

lemma polygons_twice:
  assumes "list_all wf_polygon ps"
  shows "\<exists>changed ps'. fix_polygons ps = Inr (changed, ps') \<and> list_all wf_polygon ps' \<and>
           fix_polygons ps' = Inr (False, ps')"
  using assms
proof (induction ps)
  case Nil
  then show ?case by auto
next
  case (Cons p ps)
  from Cons.prems polygon_twice[of p] obtain c p' where
    p: "fix_polygon_orientation p = Inr (c, p')" "wf_polygon p'"
       "fix_polygon_orientation p' = Inr (False, p')"
    by auto
  from Cons obtain cs ps' where
    ps: "fix_polygons ps = Inr (cs, ps')" "list_all wf_polygon ps'"
        "fix_polygons ps' = Inr (False, ps')"
    by auto
  from p ps show ?case by (simp add: ebind_simps)
qed

lemma map_of_replaced:
  "map_of (map (\<lambda>kv. if fst kv = k then (k, v) else kv) kvs) k' =
     (if k' = k \<and> map_of kvs k \<noteq> None then Some v else map_of kvs k')"
  by (induction kvs) auto

lemma replaced_twice:
  "map (\<lambda>kv. if fst kv = k then (k, v') else kv) (map (\<lambda>kv. if fst kv = k then (k, v) else kv) kvs) =
   map (\<lambda>kv. if fst kv = k then (k, v') else kv) kvs"
  by (induction kvs) auto




end
